theory Spec2Isabelle
  imports Complex_Main "HOL-Library.Word"
begin

unbundle bit_operations_syntax

section \<open>The TSL2591 driver (package tsl2591)\<close>

subsection \<open>Protocol constants (constants.go)\<close>

type_synonym byte = "8 word"
type_synonym uint16 = "16 word"

definition TSL2591_VISIBLE :: byte where "TSL2591_VISIBLE = 2"
definition TSL2591_INFRARED :: byte where "TSL2591_INFRARED = 1"
definition TSL2591_FULLSPECTRUM :: byte where "TSL2591_FULLSPECTRUM = 0"

definition TSL2591_COMMAND_BIT :: byte where "TSL2591_COMMAND_BIT = 0xA0"

definition TSL2591_ENABLE_POWEROFF :: byte where "TSL2591_ENABLE_POWEROFF = 0x00"
definition TSL2591_ENABLE_POWERON :: byte where "TSL2591_ENABLE_POWERON = 0x01"
definition TSL2591_ENABLE_AEN :: byte where "TSL2591_ENABLE_AEN = 0x02"
definition TSL2591_ENABLE_AIEN :: byte where "TSL2591_ENABLE_AIEN = 0x10"
definition TSL2591_ENABLE_NPIEN :: byte where "TSL2591_ENABLE_NPIEN = 0x80"

definition TSL2591_LUX_DF :: real where "TSL2591_LUX_DF = 408"

definition TSL2591_REGISTER_ENABLE :: byte where "TSL2591_REGISTER_ENABLE = 0x00"
definition TSL2591_REGISTER_CONTROL :: byte where "TSL2591_REGISTER_CONTROL = 0x01"
definition TSL2591_REGISTER_CHAN0_LOW :: byte where "TSL2591_REGISTER_CHAN0_LOW = 0x14"

definition TSL2591_INTEGRATIONTIME_100MS :: byte where "TSL2591_INTEGRATIONTIME_100MS = 0x00"
definition TSL2591_INTEGRATIONTIME_200MS :: byte where "TSL2591_INTEGRATIONTIME_200MS = 0x01"
definition TSL2591_INTEGRATIONTIME_300MS :: byte where "TSL2591_INTEGRATIONTIME_300MS = 0x02"
definition TSL2591_INTEGRATIONTIME_400MS :: byte where "TSL2591_INTEGRATIONTIME_400MS = 0x03"
definition TSL2591_INTEGRATIONTIME_500MS :: byte where "TSL2591_INTEGRATIONTIME_500MS = 0x04"
definition TSL2591_INTEGRATIONTIME_600MS :: byte where "TSL2591_INTEGRATIONTIME_600MS = 0x05"

definition TSL2591_GAIN_LOW :: byte where "TSL2591_GAIN_LOW = 0x00"
definition TSL2591_GAIN_MED :: byte where "TSL2591_GAIN_MED = 0x10"
definition TSL2591_GAIN_HIGH :: byte where "TSL2591_GAIN_HIGH = 0x20"
definition TSL2591_GAIN_MAX :: byte where "TSL2591_GAIN_MAX = 0x30"

subsection \<open>float64 values\<close>

text \<open>
  A Go \<open>float64\<close> is a finite number, one of the two infinities, or NaN. A finite value
  is carried as the real number it stands for. Addition, multiplication and division
  compute the exact result and round it to binary64 (53 significant bits, exponents
  from -1022 to 1023, subnormal numbers below), to the nearest value with ties to even;
  a result beyond the largest finite value is an infinity. The operations follow
  IEEE 754 on the special values. The two zeros are not told apart: every zero that is
  used as a divisor in this program is the conversion of an unsigned count, hence \<open>+0\<close>,
  and division by a finite zero is written out for that sign.
\<close>

datatype float64 = Finite real | PosInf | NegInf | NaN

definition f_inf :: "bool \<Rightarrow> float64" where
  "f_inf pos = (if pos then PosInf else NegInf)"

definition round_half_even :: "real \<Rightarrow> nat" where
  "round_half_even x =
     (let f = \<lfloor>x\<rfloor>; d = x - of_int f
      in nat (if d < 1 / 2 then f else if 1 / 2 < d then f + 1
              else if even f then f else f + 1))"

definition pow2 :: "int \<Rightarrow> real" where
  "pow2 e = (if 0 \<le> e then 2 ^ nat e else 1 / 2 ^ nat (- e))"

text \<open>The binary exponent of a positive number: scale into \<open>[1, 2)\<close>, counting the steps.\<close>

function normalise2 :: "real \<Rightarrow> int \<Rightarrow> real \<times> int" where
  "normalise2 m e =
     (if m \<le> 0 then (m, e)
      else if 2 \<le> m then normalise2 (m / 2) (e + 1)
      else if m < 1 then normalise2 (m * 2) (e - 1)
      else (m, e))"
  by pat_completeness auto

termination normalise2
proof (relation "measure (\<lambda>(m, e). if 1 \<le> m \<and> m < 2 then 0 else Suc (nat \<lfloor>\<bar>log 2 m\<bar>\<rfloor>))")
  show "wf (measure (\<lambda>(m::real, e::int). if 1 \<le> m \<and> m < 2 then 0 else Suc (nat \<lfloor>\<bar>log 2 m\<bar>\<rfloor>)))"
    by simp
next
  fix m :: real and e :: int
  assume a: "\<not> m \<le> 0" "2 \<le> m"
  have l: "log 2 (m / 2) = log 2 m - 1" using a by (simp add: log_divide)
  have g: "1 \<le> log 2 m" using a(2) by (simp add: le_log_iff)
  have "nat \<lfloor>\<bar>log 2 m - 1\<bar>\<rfloor> < nat \<lfloor>\<bar>log 2 m\<bar>\<rfloor>"
    using g by (simp add: abs_if)
  then show "((m / 2, e + 1), (m, e)) \<in> measure (\<lambda>(m, e). if 1 \<le> m \<and> m < 2 then 0 else Suc (nat \<lfloor>\<bar>log 2 m\<bar>\<rfloor>))"
    using a l by simp
next
  fix m :: real and e :: int
  assume a: "\<not> m \<le> 0" "\<not> 2 \<le> m" "m < 1"
  have l: "log 2 (m * 2) = log 2 m + 1" using a by (simp add: log_mult)
  show "((m * 2, e - 1), (m, e)) \<in> measure (\<lambda>(m, e). if 1 \<le> m \<and> m < 2 then 0 else Suc (nat \<lfloor>\<bar>log 2 m\<bar>\<rfloor>))"
  proof (cases "1 \<le> m * 2")
    case True
    then show ?thesis using a by simp
  next
    case False
    then have "log 2 (m * 2) < 0" using a by simp
    then have "log 2 m + 1 < 0" using l by simp
    then have "nat \<lfloor>\<bar>log 2 m + 1\<bar>\<rfloor> < nat \<lfloor>\<bar>log 2 m\<bar>\<rfloor>"
      by (simp add: abs_if)
    then show ?thesis using a l False by simp
  qed
qed

declare normalise2.simps [simp del]

text \<open>The spacing of the binary64 values around \<open>x\<close>, the nearest of them, and the
  rounded result of an operation whose exact result is \<open>x\<close>.\<close>

definition quantum64 :: "real \<Rightarrow> real" where
  "quantum64 x = pow2 (max (snd (normalise2 \<bar>x\<bar> 0)) (- 1022) - 52)"

definition nearest64 :: "real \<Rightarrow> real" where
  "nearest64 x =
     (if x = 0 then 0
      else (if x < 0 then - 1 else 1)
           * (real (round_half_even (\<bar>x\<bar> / quantum64 x)) * quantum64 x))"

definition round64 :: "real \<Rightarrow> float64" where
  "round64 x =
     (let y = nearest64 x
      in if pow2 1024 \<le> \<bar>y\<bar> then f_inf (0 < y) else Finite y)"

definition float64_of_uint16 :: "uint16 \<Rightarrow> float64" where
  "float64_of_uint16 w = Finite (real (unat w))"

fun f_neg :: "float64 \<Rightarrow> float64" where
  "f_neg (Finite a) = Finite (- a)"
| "f_neg PosInf = NegInf"
| "f_neg NegInf = PosInf"
| "f_neg NaN = NaN"

fun f_add :: "float64 \<Rightarrow> float64 \<Rightarrow> float64" where
  "f_add NaN _ = NaN"
| "f_add _ NaN = NaN"
| "f_add (Finite a) (Finite b) = round64 (a + b)"
| "f_add PosInf NegInf = NaN"
| "f_add NegInf PosInf = NaN"
| "f_add PosInf _ = PosInf"
| "f_add NegInf _ = NegInf"
| "f_add (Finite a) PosInf = PosInf"
| "f_add (Finite a) NegInf = NegInf"

definition f_sub :: "float64 \<Rightarrow> float64 \<Rightarrow> float64" where
  "f_sub x y = f_add x (f_neg y)"

text \<open>The sign of a non-NaN value, with zero counted as positive (\<open>+0\<close>).\<close>

fun f_nonneg :: "float64 \<Rightarrow> bool" where
  "f_nonneg (Finite a) = (0 \<le> a)"
| "f_nonneg PosInf = True"
| "f_nonneg NegInf = False"
| "f_nonneg NaN = False"

fun f_mul :: "float64 \<Rightarrow> float64 \<Rightarrow> float64" where
  "f_mul NaN _ = NaN"
| "f_mul _ NaN = NaN"
| "f_mul (Finite a) (Finite b) = round64 (a * b)"
| "f_mul (Finite a) y = (if a = 0 then NaN else f_inf ((0 < a) = f_nonneg y))"
| "f_mul x (Finite b) = (if b = 0 then NaN else f_inf (f_nonneg x = (0 < b)))"
| "f_mul x y = f_inf (f_nonneg x = f_nonneg y)"

fun f_div :: "float64 \<Rightarrow> float64 \<Rightarrow> float64" where
  "f_div NaN _ = NaN"
| "f_div _ NaN = NaN"
| "f_div (Finite a) (Finite b) =
     (if b = 0 then (if a = 0 then NaN else f_inf (0 < a)) else round64 (a / b))"
| "f_div (Finite a) y = Finite 0"
| "f_div x (Finite b) = f_inf (f_nonneg x = (0 \<le> b))"
| "f_div x y = NaN"

text \<open>Go's \<open>==\<close> and \<open><\<close> on float64: every comparison with NaN is false.\<close>

fun f_eq :: "float64 \<Rightarrow> float64 \<Rightarrow> bool" where
  "f_eq (Finite a) (Finite b) = (a = b)"
| "f_eq PosInf PosInf = True"
| "f_eq NegInf NegInf = True"
| "f_eq _ _ = False"

fun f_less :: "float64 \<Rightarrow> float64 \<Rightarrow> bool" where
  "f_less NaN _ = False"
| "f_less _ NaN = False"
| "f_less (Finite a) (Finite b) = (a < b)"
| "f_less NegInf NegInf = False"
| "f_less NegInf _ = True"
| "f_less PosInf _ = False"
| "f_less (Finite a) PosInf = True"
| "f_less (Finite a) NegInf = False"

text \<open>\<open>math.IsInf(f, sign)\<close>: \<open>sign > 0\<close> asks for \<open>+Inf\<close>, \<open>sign < 0\<close> for \<open>-Inf\<close>,
  \<open>sign = 0\<close> for either.\<close>

definition IsInf :: "float64 \<Rightarrow> int \<Rightarrow> bool" where
  "IsInf f sign = ((sign \<ge> 0 \<and> f = PosInf) \<or> (sign \<le> 0 \<and> f = NegInf))"

subsection \<open>The I2C bus\<close>

text \<open>
  The bus is outside the program. Its behaviour is an oracle indexed by the number of
  the call: \<open>write_ok n\<close> says whether the \<open>n\<close>-th \<open>WriteReg\<close> succeeds, and
  \<open>read_data n\<close> is what the \<open>n\<close>-th \<open>ReadReg\<close> of a four-byte buffer delivers
  (\<open>None\<close> for an I/O error). \<open>written\<close> keeps every \<open>WriteReg\<close> call made,
  oldest first, with the register address and the byte.
\<close>

record i2c_Device =
  write_ok :: "nat \<Rightarrow> bool"
  read_data :: "nat \<Rightarrow> (byte \<times> byte \<times> byte \<times> byte) option"
  writes :: nat
  reads :: nat
  written :: "(byte \<times> byte) list"

datatype error =
    SensorMustBeEnabled
  | BusError
  | Overflow uint16 uint16
  | AllGainOptionsSaturated

definition WriteReg :: "i2c_Device \<Rightarrow> byte \<Rightarrow> byte \<Rightarrow> error option \<times> i2c_Device" where
  "WriteReg d reg b =
     (let d' = d\<lparr>writes := Suc (writes d), written := written d @ [(reg, b)]\<rparr>
      in if write_ok d (writes d) then (None, d') else (Some BusError, d'))"

definition ReadReg4 :: "i2c_Device \<Rightarrow> byte \<Rightarrow> (error + byte \<times> byte \<times> byte \<times> byte) \<times> i2c_Device" where
  "ReadReg4 d reg =
     (let d' = d\<lparr>reads := Suc (reads d)\<rparr>
      in case read_data d (reads d) of
           None \<Rightarrow> (Inl BusError, d')
         | Some bs \<Rightarrow> (Inr bs, d'))"

text \<open>\<open>binary.LittleEndian.Uint16\<close> on two bytes.\<close>

definition LittleEndian_Uint16 :: "byte \<Rightarrow> byte \<Rightarrow> uint16" where
  "LittleEndian_Uint16 lo hi = ucast lo OR push_bit 8 (ucast hi)"

subsection \<open>The device handle (tsl2591.go)\<close>

record TSL2591 =
  Enabled :: bool
  Timing :: byte
  Gain :: byte
  Device :: i2c_Device

text \<open>Every operation returns its Go result together with the updated handle. The
  mutex taken by \<open>Enable\<close> and \<open>Disable\<close> has no effect on a single thread of calls
  and is left out; so are the log lines and the settle delay of \<open>GetFullLuminosity\<close>.\<close>

definition GetFullLuminosity :: "TSL2591 \<Rightarrow> (error + uint16 \<times> uint16) \<times> TSL2591" where
  "GetFullLuminosity tsl =
     (if \<not> Enabled tsl then (Inl SensorMustBeEnabled, tsl)
      else case ReadReg4 (Device tsl) (TSL2591_COMMAND_BIT OR TSL2591_REGISTER_CHAN0_LOW) of
             (Inl e, d) \<Rightarrow> (Inl e, tsl\<lparr>Device := d\<rparr>)
           | (Inr (b0, b1, b2, b3), d) \<Rightarrow>
               (Inr (LittleEndian_Uint16 b0 b1, LittleEndian_Uint16 b2 b3), tsl\<lparr>Device := d\<rparr>))"

text \<open>\<open>CalculateLux\<close>. Its two \<open>switch\<close> statements, on the stored timing and on the
  stored gain, are the two tables that follow.\<close>

definition int_time_of :: "byte \<Rightarrow> real" where
  "int_time_of t =
     (if t = TSL2591_INTEGRATIONTIME_100MS then 100
      else if t = TSL2591_INTEGRATIONTIME_200MS then 200
      else if t = TSL2591_INTEGRATIONTIME_300MS then 300
      else if t = TSL2591_INTEGRATIONTIME_400MS then 400
      else if t = TSL2591_INTEGRATIONTIME_500MS then 500
      else if t = TSL2591_INTEGRATIONTIME_600MS then 600
      else 100)"

definition adj_gain_of :: "byte \<Rightarrow> real" where
  "adj_gain_of g =
     (if g = TSL2591_GAIN_LOW then 1
      else if g = TSL2591_GAIN_MED then 25
      else if g = TSL2591_GAIN_HIGH then 428
      else if g = TSL2591_GAIN_MAX then 9876
      else 1)"

definition CalculateLux :: "TSL2591 \<Rightarrow> uint16 \<Rightarrow> uint16 \<Rightarrow> error + float64" where
  "CalculateLux tsl ch0 ch1 =
     (if ch0 = 0xFFFF \<or> ch1 = 0xFFFF then Inl (Overflow ch0 ch1)
      else
        let int_time = Finite (int_time_of (Timing tsl));
            adj_gain = Finite (adj_gain_of (Gain tsl));
            cpl = f_div (f_mul int_time adj_gain) (Finite TSL2591_LUX_DF);
            lux = f_div
                    (f_mul (f_sub (float64_of_uint16 ch0) (float64_of_uint16 ch1))
                           (f_sub (Finite 1)
                                  (f_div (float64_of_uint16 ch1) (float64_of_uint16 ch0))))
                    cpl
        in Inr lux)"

definition Enable :: "TSL2591 \<Rightarrow> error option \<times> TSL2591" where
  "Enable tsl =
     (if Enabled tsl then (None, tsl)
      else case WriteReg (Device tsl) (TSL2591_COMMAND_BIT OR TSL2591_REGISTER_ENABLE)
                  (TSL2591_ENABLE_POWERON OR TSL2591_ENABLE_AEN OR TSL2591_ENABLE_AIEN
                     OR TSL2591_ENABLE_NPIEN) of
             (Some e, d) \<Rightarrow> (Some e, tsl\<lparr>Device := d\<rparr>)
           | (None, d) \<Rightarrow> (None, tsl\<lparr>Device := d, Enabled := True\<rparr>))"

definition Disable :: "TSL2591 \<Rightarrow> error option \<times> TSL2591" where
  "Disable tsl =
     (if \<not> Enabled tsl then (None, tsl)
      else case WriteReg (Device tsl) (TSL2591_COMMAND_BIT OR TSL2591_REGISTER_ENABLE)
                  TSL2591_ENABLE_POWEROFF of
             (Some e, d) \<Rightarrow> (Some e, tsl\<lparr>Device := d\<rparr>)
           | (None, d) \<Rightarrow> (None, tsl\<lparr>Device := d, Enabled := False\<rparr>))"

definition SetGain :: "byte \<Rightarrow> TSL2591 \<Rightarrow> error option \<times> TSL2591" where
  "SetGain gain tsl =
     (if \<not> Enabled tsl then (Some SensorMustBeEnabled, tsl)
      else case WriteReg (Device tsl) (TSL2591_COMMAND_BIT OR TSL2591_REGISTER_CONTROL)
                  (Timing tsl OR gain) of
             (Some e, d) \<Rightarrow> (Some e, tsl\<lparr>Device := d\<rparr>)
           | (None, d) \<Rightarrow> (None, tsl\<lparr>Device := d, Gain := gain\<rparr>))"

definition SetTiming :: "byte \<Rightarrow> TSL2591 \<Rightarrow> error option \<times> TSL2591" where
  "SetTiming timing tsl =
     (if \<not> Enabled tsl then (Some SensorMustBeEnabled, tsl)
      else case WriteReg (Device tsl) (TSL2591_COMMAND_BIT OR TSL2591_REGISTER_CONTROL)
                  (timing OR Gain tsl) of
             (Some e, d) \<Rightarrow> (Some e, tsl\<lparr>Device := d\<rparr>)
           | (None, d) \<Rightarrow> (None, tsl\<lparr>Device := d, Timing := timing\<rparr>))"

text \<open>\<open>SetOptimalGain\<close>: the two nested \<open>range\<close> loops, one recursive function each.
  The first component of a loop's result says whether the function returned \<open>nil\<close> from
  inside it. The results of \<open>SetGain\<close> and \<open>SetTiming\<close> are discarded, as in the source.\<close>

definition gainOptions :: "byte list" where
  "gainOptions = [TSL2591_GAIN_LOW, TSL2591_GAIN_MED, TSL2591_GAIN_HIGH, TSL2591_GAIN_MAX]"

definition integrationOptions :: "byte list" where
  "integrationOptions =
     [TSL2591_INTEGRATIONTIME_600MS, TSL2591_INTEGRATIONTIME_500MS,
      TSL2591_INTEGRATIONTIME_400MS, TSL2591_INTEGRATIONTIME_300MS,
      TSL2591_INTEGRATIONTIME_200MS, TSL2591_INTEGRATIONTIME_100MS]"

fun integration_loop :: "byte list \<Rightarrow> TSL2591 \<Rightarrow> bool \<times> TSL2591" where
  "integration_loop [] tsl = (False, tsl)"
| "integration_loop (time # rest) tsl =
     (let tsl1 = snd (SetTiming time tsl)
      in case GetFullLuminosity tsl1 of
           (Inl err, tsl2) \<Rightarrow> integration_loop rest tsl2
         | (Inr (ch0, ch1), tsl2) \<Rightarrow>
             if ch0 = 0xFFFF \<or> ch1 = 0xFFFF then integration_loop rest tsl2
             else case CalculateLux tsl2 ch0 ch1 of
                    Inl err \<Rightarrow> integration_loop rest tsl2
                  | Inr lux \<Rightarrow>
                      if f_eq lux (Finite 0) then integration_loop rest tsl2
                      else (True, tsl2))"

fun gain_loop :: "byte list \<Rightarrow> TSL2591 \<Rightarrow> bool \<times> TSL2591" where
  "gain_loop [] tsl = (False, tsl)"
| "gain_loop (gain # rest) tsl =
     (let tsl1 = snd (SetGain gain tsl)
      in case integration_loop integrationOptions tsl1 of
           (True, tsl2) \<Rightarrow> (True, tsl2)
         | (False, tsl2) \<Rightarrow> gain_loop rest tsl2)"

definition SetOptimalGain :: "TSL2591 \<Rightarrow> error option \<times> TSL2591" where
  "SetOptimalGain tsl =
     (case gain_loop gainOptions tsl of
        (True, tsl1) \<Rightarrow> (None, tsl1)
      | (False, tsl1) \<Rightarrow>
          (let tsl2 = snd (SetGain TSL2591_GAIN_LOW tsl1);
               tsl3 = snd (SetTiming TSL2591_INTEGRATIONTIME_600MS tsl2)
           in (Some AllGainOptionsSaturated, tsl3)))"

definition GetNormalizedOutput :: "byte \<Rightarrow> uint16 \<Rightarrow> uint16 \<Rightarrow> float64" where
  "GetNormalizedOutput spectrumType ch0 ch1 =
     (if spectrumType = TSL2591_VISIBLE then
        (let visible = f_sub (float64_of_uint16 ch0) (float64_of_uint16 ch1);
             visible' = (if f_less visible (Finite 0) then Finite 0 else visible)
         in f_div visible' (Finite 0xFFFF))
      else if spectrumType = TSL2591_INFRARED then
        f_div (float64_of_uint16 ch1) (Finite 0xFFFF)
      else if spectrumType = TSL2591_FULLSPECTRUM then
        f_div (float64_of_uint16 ch0) (Finite 0xFFFF)
      else Finite 0)"

section \<open>The sampling job and the recorder (package sunlightmeter)\<close>

subsection \<open>Rendering float64 values: the verbs \<open>%.Nf\<close> and \<open>%.Ne\<close> of package fmt\<close>

text \<open>
  \<open>fmt.Sprintf\<close> prints NaN as \<open>NaN\<close> and the infinities as \<open>+Inf\<close> and \<open>-Inf\<close>
  under both verbs. A finite value is rounded to the requested number of places after
  the decimal point, ties to even. \<open>%e\<close> puts one digit before the point and writes the
  decimal exponent with a sign and at least two digits.
\<close>

definition digit_char :: "nat \<Rightarrow> char" where
  "digit_char d = ''0123456789'' ! (d mod 10)"

fun digits10 :: "nat \<Rightarrow> string" where
  "digits10 n = (if n < 10 then [digit_char n] else digits10 (n div 10) @ [digit_char (n mod 10)])"

declare digits10.simps [simp del]

primrec fixed_digits :: "nat \<Rightarrow> nat \<Rightarrow> string" where
  "fixed_digits 0 n = []"
| "fixed_digits (Suc k) n = fixed_digits k (n div 10) @ [digit_char (n mod 10)]"

definition fmt_f :: "nat \<Rightarrow> float64 \<Rightarrow> string" where
  "fmt_f prec v =
     (case v of
        NaN \<Rightarrow> ''NaN''
      | PosInf \<Rightarrow> ''+Inf''
      | NegInf \<Rightarrow> ''-Inf''
      | Finite x \<Rightarrow>
          (let n = round_half_even (\<bar>x\<bar> * 10 ^ prec)
           in (if x < 0 then ''-'' else []) @ digits10 (n div 10 ^ prec)
              @ (if prec = 0 then [] else ''.'' @ fixed_digits prec (n mod 10 ^ prec))))"

text \<open>The decimal exponent of a positive number: scale into \<open>[1, 10)\<close>, counting the steps.\<close>

function normalise10 :: "real \<Rightarrow> int \<Rightarrow> real \<times> int" where
  "normalise10 m e =
     (if m \<le> 0 then (m, e)
      else if 10 \<le> m then normalise10 (m / 10) (e + 1)
      else if m < 1 then normalise10 (m * 10) (e - 1)
      else (m, e))"
  by pat_completeness auto

termination normalise10
proof (relation "measure (\<lambda>(m, e). if 1 \<le> m \<and> m < 10 then 0 else Suc (nat \<lfloor>\<bar>log 10 m\<bar>\<rfloor>))")
  show "wf (measure (\<lambda>(m::real, e::int). if 1 \<le> m \<and> m < 10 then 0 else Suc (nat \<lfloor>\<bar>log 10 m\<bar>\<rfloor>)))"
    by simp
next
  fix m :: real and e :: int
  assume a: "\<not> m \<le> 0" "10 \<le> m"
  have l: "log 10 (m / 10) = log 10 m - 1" using a by (simp add: log_divide)
  have g: "1 \<le> log 10 m" using a(2) by (simp add: le_log_iff)
  have "nat \<lfloor>\<bar>log 10 m - 1\<bar>\<rfloor> < nat \<lfloor>\<bar>log 10 m\<bar>\<rfloor>"
    using g by (simp add: abs_if)
  then show "((m / 10, e + 1), (m, e)) \<in> measure (\<lambda>(m, e). if 1 \<le> m \<and> m < 10 then 0 else Suc (nat \<lfloor>\<bar>log 10 m\<bar>\<rfloor>))"
    using a l by simp
next
  fix m :: real and e :: int
  assume a: "\<not> m \<le> 0" "\<not> 10 \<le> m" "m < 1"
  have l: "log 10 (m * 10) = log 10 m + 1" using a by (simp add: log_mult)
  show "((m * 10, e - 1), (m, e)) \<in> measure (\<lambda>(m, e). if 1 \<le> m \<and> m < 10 then 0 else Suc (nat \<lfloor>\<bar>log 10 m\<bar>\<rfloor>))"
  proof (cases "1 \<le> m * 10")
    case True
    then show ?thesis using a by simp
  next
    case False
    then have "log 10 (m * 10) < 0" using a by simp
    then have "log 10 m + 1 < 0" using l by simp
    then have "nat \<lfloor>\<bar>log 10 m + 1\<bar>\<rfloor> < nat \<lfloor>\<bar>log 10 m\<bar>\<rfloor>"
      by (simp add: abs_if)
    then show ?thesis using a l False by simp
  qed
qed

declare normalise10.simps [simp del]

text \<open>Rounding the scaled mantissa can reach the next power of ten; then the exponent
  moves up by one.\<close>

definition carry :: "nat \<Rightarrow> nat \<times> int \<Rightarrow> nat \<times> int" where
  "carry prec p = (case p of (n, e) \<Rightarrow> if 10 ^ Suc prec \<le> n then (n div 10, e + 1) else (n, e))"

definition render_e :: "bool \<Rightarrow> nat \<Rightarrow> nat \<times> int \<Rightarrow> string" where
  "render_e neg prec p =
     (case p of (n, e) \<Rightarrow>
        (if neg then ''-'' else []) @ [digit_char (n div 10 ^ prec)]
        @ (if prec = 0 then [] else ''.'' @ fixed_digits prec (n mod 10 ^ prec))
        @ ''e'' @ (if e < 0 then ''-'' else ''+'')
        @ (if \<bar>e\<bar> < 10 then ''0'' else []) @ digits10 (nat \<bar>e\<bar>))"

definition fmt_e :: "nat \<Rightarrow> float64 \<Rightarrow> string" where
  "fmt_e prec v =
     (case v of
        NaN \<Rightarrow> ''NaN''
      | PosInf \<Rightarrow> ''+Inf''
      | NegInf \<Rightarrow> ''-Inf''
      | Finite x \<Rightarrow>
          (if x = 0 then render_e False prec (0, 0)
           else
             let (m, e) = normalise10 \<bar>x\<bar> 0
             in render_e (x < 0) prec (carry prec (round_half_even (m * 10 ^ prec), e))))"

subsection \<open>The meter, its storage and the Go runtime around it\<close>

record LuxResults =
  Lux :: float64
  Infrared :: float64
  Visible :: float64
  FullSpectrum :: float64
  JobID :: string

text \<open>The table \<open>sunlight\<close>: the five columns the recorder fills, \<open>job_id\<close> to
  \<open>infrared\<close>. \<open>exec_ok n\<close> says whether the \<open>n\<close>-th \<open>Exec\<close> on the handle succeeds.\<close>

record sunlight_row =
  col_job_id :: string
  col_lux :: string
  col_full_spectrum :: string
  col_visible :: string
  col_infrared :: string

record sql_DB =
  exec_ok :: "nat \<Rightarrow> bool"
  execs :: nat
  sunlight :: "sunlight_row list"

text \<open>A context is known by the number it was created with; \<open>cancel\<close> holds the cancel
  function of the latest one (\<open>None\<close> is Go's \<open>nil\<close>). The channel is the sequence of
  values sent and not yet received.\<close>

record SLMeter =
  TSL2591 :: "TSL2591 option"
  LuxResultsChan :: "LuxResults list"
  ResultsDB :: sql_DB
  cancel :: "nat option"
  Pid :: int

text \<open>
  A goroutine started by \<open>Start\<close> is \<open>Spawned\<close> until it runs its first statement,
  \<open>Looping ctx jobID\<close> once it has created its context, enabled the sensor and drawn its
  job id, and \<open>Exited\<close> after the loop returned. \<open>ctx_done\<close> holds the contexts that are
  cancelled or past their deadline; \<open>uuid n\<close> is the \<open>n\<close>-th value \<open>uuid.New().String()\<close>
  gives.
\<close>

datatype goroutine = Spawned | Looping nat string | Exited

record system =
  meter :: SLMeter
  jobs :: "goroutine list"
  ctx_done :: "nat set"
  ctx_count :: nat
  uuid :: "nat \<Rightarrow> string"
  uuid_count :: nat

text \<open>What a handler leaves behind: the status and message it served, or a panic.\<close>

datatype outcome = Served nat string | Panicked

subsection \<open>Start and Stop (sunlightmeter.go)\<close>

definition Start :: "system \<Rightarrow> outcome \<times> system" where
  "Start s =
     (case TSL2591 (meter s) of
        None \<Rightarrow> (Served 400 ''The sensor is not connected'', s)
      | Some tsl \<Rightarrow>
          if Enabled tsl then (Served 400 ''The sensor is already started'', s)
          else (Served 200 ''Sunlight Reading Started'', s\<lparr>jobs := jobs s @ [Spawned]\<rparr>))"

text \<open>The first statements of the goroutine, up to the loop: \<open>context.WithTimeout\<close>,
  the assignment to \<open>m.cancel\<close>, \<open>m.Enable()\<close> with its result dropped, and the job id.\<close>

definition job_begin :: "nat \<Rightarrow> system \<Rightarrow> system" where
  "job_begin i s =
     (if i < length (jobs s) \<and> jobs s ! i = Spawned then
        (case TSL2591 (meter s) of
           None \<Rightarrow> s
         | Some tsl \<Rightarrow>
             let ctx = ctx_count s;
                 tsl' = snd (Enable tsl);
                 jobID = uuid s (uuid_count s)
             in s\<lparr>meter := (meter s)\<lparr>cancel := Some ctx, TSL2591 := Some tsl'\<rparr>,
                  ctx_count := Suc ctx,
                  uuid_count := Suc (uuid_count s),
                  jobs := (jobs s)[i := Looping ctx jobID]\<rparr>)
      else s)"

text \<open>One pass through the loop body of goroutine \<open>i\<close>, from the cancellation check to
  the next wait. On exit the deferred \<open>m.Disable()\<close> runs.\<close>

definition job_tick :: "nat \<Rightarrow> system \<Rightarrow> system" where
  "job_tick i s =
     (if i < length (jobs s) then
        (case (jobs s ! i, TSL2591 (meter s)) of
           (Looping ctx jobID, Some tsl) \<Rightarrow>
             if ctx \<in> ctx_done s then
               s\<lparr>meter := (meter s)\<lparr>TSL2591 := Some (snd (Disable tsl))\<rparr>,
                 jobs := (jobs s)[i := Exited]\<rparr>
             else
               (case GetFullLuminosity tsl of
                  (Inl err, tsl1) \<Rightarrow>
                    s\<lparr>meter := (meter s)
                         \<lparr>TSL2591 := Some tsl1,
                          LuxResultsChan := LuxResultsChan (meter s)
                            @ [\<lparr>Lux = Finite 0, Infrared = Finite 0, Visible = Finite 0,
                                FullSpectrum = Finite 0, JobID = jobID\<rparr>]\<rparr>\<rparr>
                | (Inr (ch0, ch1), tsl1) \<Rightarrow>
                    (case CalculateLux tsl1 ch0 ch1 of
                       Inl err \<Rightarrow>
                         s\<lparr>meter := (meter s)\<lparr>TSL2591 := Some (snd (SetOptimalGain tsl1))\<rparr>\<rparr>
                     | Inr lux \<Rightarrow>
                         s\<lparr>meter := (meter s)
                              \<lparr>TSL2591 := Some tsl1,
                               LuxResultsChan := LuxResultsChan (meter s)
                                 @ [\<lparr>Lux = lux,
                                     Infrared = GetNormalizedOutput TSL2591_INFRARED ch0 ch1,
                                     Visible = GetNormalizedOutput TSL2591_VISIBLE ch0 ch1,
                                     FullSpectrum = GetNormalizedOutput TSL2591_FULLSPECTRUM ch0 ch1,
                                     JobID = jobID\<rparr>]\<rparr>\<rparr>))
         | _ \<Rightarrow> s)
      else s)"

text \<open>\<open>Stop\<close> calls \<open>m.cancel()\<close> and then, on return, the deferred \<open>m.Disable()\<close>.
  Calling a \<open>nil\<close> function panics; the deferred call still runs.\<close>

definition Stop :: "system \<Rightarrow> outcome \<times> system" where
  "Stop s =
     (case TSL2591 (meter s) of
        None \<Rightarrow> (Served 400 ''The sensor is not connected'', s)
      | Some tsl \<Rightarrow>
          if \<not> Enabled tsl then (Served 400 ''The sensor is already stopped'', s)
          else
            let disabled = (meter s)\<lparr>TSL2591 := Some (snd (Disable tsl))\<rparr>
            in case cancel (meter s) of
                 None \<Rightarrow> (Panicked, s\<lparr>meter := disabled\<rparr>)
               | Some ctx \<Rightarrow>
                   (Served 200 ''Sunlight Reading Stopped'',
                    s\<lparr>ctx_done := insert ctx (ctx_done s), meter := disabled\<rparr>))"

text \<open>A goroutine is a running job from the moment \<open>Start\<close> spawns it until its loop
  has returned.\<close>

definition running :: "goroutine \<Rightarrow> bool" where
  "running g = (g \<noteq> Exited)"

definition running_jobs :: "system \<Rightarrow> goroutine list" where
  "running_jobs s = filter running (jobs s)"

subsection \<open>The recorder\<close>

text \<open>The body of the receive loop for one value taken from the channel, and the loop
  over the values waiting there.\<close>

definition record_result :: "LuxResults \<Rightarrow> sql_DB \<Rightarrow> sql_DB" where
  "record_result result db =
     (if IsInf (Lux result) 1 then db
      else
        let row = \<lparr>col_job_id = JobID result,
                   col_lux = fmt_f 5 (Lux result),
                   col_full_spectrum = fmt_e 5 (FullSpectrum result),
                   col_visible = fmt_e 5 (Visible result),
                   col_infrared = fmt_e 5 (Infrared result)\<rparr>
        in if exec_ok db (execs db)
           then db\<lparr>execs := Suc (execs db), sunlight := sunlight db @ [row]\<rparr>
           else db\<lparr>execs := Suc (execs db)\<rparr>)"

fun record_all :: "LuxResults list \<Rightarrow> sql_DB \<Rightarrow> sql_DB" where
  "record_all [] db = db"
| "record_all (result # rest) db = record_all rest (record_result result db)"

definition MonitorAndRecordResults :: "system \<Rightarrow> system" where
  "MonitorAndRecordResults s =
     s\<lparr>meter := (meter s)\<lparr>LuxResultsChan := [],
                           ResultsDB := record_all (LuxResultsChan (meter s)) (ResultsDB (meter s))\<rparr>\<rparr>"

section \<open>The calibration as a search over the combinations\<close>

text \<open>
  The order of the combinations tried, gain ascending and integration time descending,
  and a search over it: a combination is skipped when its read fails, when a channel
  reads \<open>0xFFFF\<close>, or when the lux computed under it is zero; the first combination
  not skipped is the result, together with the number of reads made so far.
\<close>

definition search_order :: "(byte \<times> byte) list" where
  "search_order =
     [(TSL2591_GAIN_LOW, TSL2591_INTEGRATIONTIME_600MS), (TSL2591_GAIN_LOW, TSL2591_INTEGRATIONTIME_500MS),
      (TSL2591_GAIN_LOW, TSL2591_INTEGRATIONTIME_400MS), (TSL2591_GAIN_LOW, TSL2591_INTEGRATIONTIME_300MS),
      (TSL2591_GAIN_LOW, TSL2591_INTEGRATIONTIME_200MS), (TSL2591_GAIN_LOW, TSL2591_INTEGRATIONTIME_100MS),
      (TSL2591_GAIN_MED, TSL2591_INTEGRATIONTIME_600MS), (TSL2591_GAIN_MED, TSL2591_INTEGRATIONTIME_500MS),
      (TSL2591_GAIN_MED, TSL2591_INTEGRATIONTIME_400MS), (TSL2591_GAIN_MED, TSL2591_INTEGRATIONTIME_300MS),
      (TSL2591_GAIN_MED, TSL2591_INTEGRATIONTIME_200MS), (TSL2591_GAIN_MED, TSL2591_INTEGRATIONTIME_100MS),
      (TSL2591_GAIN_HIGH, TSL2591_INTEGRATIONTIME_600MS), (TSL2591_GAIN_HIGH, TSL2591_INTEGRATIONTIME_500MS),
      (TSL2591_GAIN_HIGH, TSL2591_INTEGRATIONTIME_400MS), (TSL2591_GAIN_HIGH, TSL2591_INTEGRATIONTIME_300MS),
      (TSL2591_GAIN_HIGH, TSL2591_INTEGRATIONTIME_200MS), (TSL2591_GAIN_HIGH, TSL2591_INTEGRATIONTIME_100MS),
      (TSL2591_GAIN_MAX, TSL2591_INTEGRATIONTIME_600MS), (TSL2591_GAIN_MAX, TSL2591_INTEGRATIONTIME_500MS),
      (TSL2591_GAIN_MAX, TSL2591_INTEGRATIONTIME_400MS), (TSL2591_GAIN_MAX, TSL2591_INTEGRATIONTIME_300MS),
      (TSL2591_GAIN_MAX, TSL2591_INTEGRATIONTIME_200MS), (TSL2591_GAIN_MAX, TSL2591_INTEGRATIONTIME_100MS)]"

definition skipped :: "TSL2591 \<Rightarrow> byte \<Rightarrow> byte \<Rightarrow> (byte \<times> byte \<times> byte \<times> byte) option \<Rightarrow> bool" where
  "skipped tsl g t r =
     (case r of
        None \<Rightarrow> True
      | Some (b0, b1, b2, b3) \<Rightarrow>
          let ch0 = LittleEndian_Uint16 b0 b1; ch1 = LittleEndian_Uint16 b2 b3
          in ch0 = 0xFFFF \<or> ch1 = 0xFFFF
             \<or> CalculateLux (tsl\<lparr>Gain := g, Timing := t\<rparr>) ch0 ch1 = Inr (Finite 0))"

fun search :: "TSL2591 \<Rightarrow> (byte \<times> byte) list \<Rightarrow> nat \<Rightarrow> (byte \<times> byte \<times> nat) option" where
  "search tsl [] n = None"
| "search tsl ((g, t) # rest) n =
     (if skipped tsl g t (read_data (Device tsl) n) then search tsl rest (Suc n)
      else Some (g, t, Suc n))"

text \<open>The combinations in the order the two nested loops visit them.\<close>

definition combinations :: "byte list \<Rightarrow> (byte \<times> byte) list" where
  "combinations gs = concat (map (\<lambda>g. map (Pair g) integrationOptions) gs)"

section \<open>Example devices\<close>

text \<open>A bus on which every write succeeds (or every write fails) and every read
  delivers the same thing, and a handle on it.\<close>

definition steady_bus :: "bool \<Rightarrow> (byte \<times> byte \<times> byte \<times> byte) option \<Rightarrow> i2c_Device" where
  "steady_bus ok r =
     \<lparr>write_ok = (\<lambda>n. ok), read_data = (\<lambda>n. r), writes = 0, reads = 0, written = []\<rparr>"

text \<open>A bus whose first reads follow a script and whose later reads are all the same.\<close>

definition scripted_bus ::
  "bool \<Rightarrow> (byte \<times> byte \<times> byte \<times> byte) option list
     \<Rightarrow> (byte \<times> byte \<times> byte \<times> byte) option \<Rightarrow> i2c_Device" where
  "scripted_bus ok rs r =
     \<lparr>write_ok = (\<lambda>n. ok), read_data = (\<lambda>n. if n < length rs then rs ! n else r),
      writes = 0, reads = 0, written = []\<rparr>"

definition handle :: "bool \<Rightarrow> byte \<Rightarrow> byte \<Rightarrow> i2c_Device \<Rightarrow> TSL2591" where
  "handle en t g d = \<lparr>Enabled = en, Timing = t, Gain = g, Device = d\<rparr>"

text \<open>The system as \<open>main\<close> leaves it: the handle \<open>NewTSL2591\<close> gave (or \<open>nil\<close>), an empty
  channel, an empty table on a database that accepts every statement, no goroutine, no
  context. The \<open>n\<close>-th job id drawn is \<open>job-n\<close>.\<close>

definition fresh_db :: sql_DB where
  "fresh_db = \<lparr>exec_ok = (\<lambda>n. True), execs = 0, sunlight = []\<rparr>"

definition boot :: "TSL2591 option \<Rightarrow> system" where
  "boot dev =
     \<lparr>meter = \<lparr>TSL2591 = dev, LuxResultsChan = [], ResultsDB = fresh_db,
                cancel = None, Pid = 1\<rparr>,
      jobs = [], ctx_done = {}, ctx_count = 0,
      uuid = (\<lambda>n. ''job-'' @ digits10 n), uuid_count = 0\<rparr>"

text \<open>A schedule is a list of steps, run from left to right: a request (its answer
  dropped), the first statements of a goroutine, or one pass of its loop.\<close>

definition run :: "(system \<Rightarrow> system) list \<Rightarrow> system \<Rightarrow> system" where
  "run steps s = fold (\<lambda>step. step) steps s"

text \<open>A system with a disabled sensor at 300 ms and low gain, on a steady bus.\<close>

definition attached :: "bool \<Rightarrow> (byte \<times> byte \<times> byte \<times> byte) option \<Rightarrow> system" where
  "attached ok r =
     boot (Some (handle False TSL2591_INTEGRATIONTIME_300MS TSL2591_GAIN_LOW (steady_bus ok r)))"

section \<open>Reading a rendered number\<close>

text \<open>The characters after the decimal point of a rendered number, and the number of
  digits of its mantissa (everything before the exponent marker).\<close>

definition is_digit :: "char \<Rightarrow> bool" where
  "is_digit c = (c \<in> set ''0123456789'')"

definition fraction_part :: "string \<Rightarrow> string" where
  "fraction_part s = drop 1 (dropWhile (\<lambda>c. c \<noteq> CHR ''.'') s)"

definition significant_digits :: "string \<Rightarrow> nat" where
  "significant_digits s = length (filter is_digit (takeWhile (\<lambda>c. c \<noteq> CHR ''e'') s))"

section \<open>Rounding to binary64\<close>

lemma pow2_powi: "pow2 e = 2 powi e"
  by (simp add: pow2_def power_int_def field_simps)

lemma pow2_pos: "0 < pow2 e"
  by (simp add: pow2_powi)

lemma pow2_mono: "a \<le> b \<Longrightarrow> pow2 a \<le> pow2 b"
  by (simp add: pow2_powi power_int_increasing)

lemma normalise2_done: "1 \<le> m \<Longrightarrow> m < 2 \<Longrightarrow> normalise2 m e = (m, e)"
  by (subst normalise2.simps) simp

lemma normalise2_up: "0 < m \<Longrightarrow> m < 1 \<Longrightarrow> normalise2 m e = normalise2 (m * 2) (e - 1)"
  by (subst normalise2.simps) simp

lemma normalise2_down: "2 \<le> m \<Longrightarrow> normalise2 m e = normalise2 (m / 2) (e + 1)"
  by (subst normalise2.simps) simp

lemma normalise2_spec:
  "0 < x \<Longrightarrow> 1 \<le> fst (normalise2 x k) \<and> fst (normalise2 x k) < 2
     \<and> x * pow2 k = fst (normalise2 x k) * pow2 (snd (normalise2 x k))"
proof (induction x k rule: normalise2.induct)
  case (1 m e)
  show ?case
  proof (cases "2 \<le> m")
    case True
    have "m / 2 * pow2 (e + 1) = m * pow2 e"
      by (simp add: pow2_powi power_int_add)
    then show ?thesis
      using "1.IH"(1) "1.prems" True by (simp add: normalise2_down)
  next
    case False
    show ?thesis
    proof (cases "m < 1")
      case True
      have "m * 2 * pow2 (e - 1) = m * pow2 e"
        by (simp add: pow2_powi power_int_diff)
      then show ?thesis
        using "1.IH"(2) "1.prems" True False by (simp add: normalise2_up)
    next
      case False
      then show ?thesis using \<open>\<not> 2 \<le> m\<close> by (simp add: normalise2_done)
    qed
  qed
qed

lemma round_half_even_upper: "0 \<le> y \<Longrightarrow> real (round_half_even y) \<le> y + 1 / 2"
  by (simp add: round_half_even_def Let_def) linarith

lemma round_half_even_lower: "0 \<le> y \<Longrightarrow> y - 1 / 2 \<le> real (round_half_even y)"
  by (simp add: round_half_even_def Let_def) linarith

lemma round_half_even_zero: "0 \<le> y \<Longrightarrow> y < 1 / 2 \<Longrightarrow> round_half_even y = 0"
  by (simp add: round_half_even_def Let_def)


lemma quantum64_pos: "0 < quantum64 x"
  by (simp add: quantum64_def pow2_pos)

lemma quantum64_le:
  assumes "pow2 (- 1074) \<le> \<bar>x\<bar>"
  shows "quantum64 x \<le> \<bar>x\<bar>"
proof -
  let ?m = "fst (normalise2 \<bar>x\<bar> 0)" and ?e = "snd (normalise2 \<bar>x\<bar> 0)"
  have "0 < pow2 (- 1074)" by (rule pow2_pos)
  then have pos: "0 < \<bar>x\<bar>" using assms by linarith
  have spec: "1 \<le> ?m" "\<bar>x\<bar> * pow2 0 = ?m * pow2 ?e"
    using normalise2_spec [OF pos, of 0] by simp_all
  have one: "pow2 0 = 1" by (simp add: pow2_def)
  show ?thesis
  proof (cases "- 1022 \<le> ?e")
    case True
    then have "quantum64 x = pow2 (?e - 52)" by (simp add: quantum64_def max_def)
    also have "\<dots> \<le> pow2 ?e" by (rule pow2_mono) simp
    also have "\<dots> \<le> ?m * pow2 ?e"
      using spec(1) pow2_pos [of ?e] by (simp add: mult_le_cancel_right1)
    finally show ?thesis using spec(2) one by simp
  next
    case False
    then have "quantum64 x = pow2 (- 1074)" by (simp add: quantum64_def max_def)
    then show ?thesis using assms by simp
  qed
qed

lemma nearest64_abs:
  "\<bar>nearest64 x\<bar> = real (round_half_even (\<bar>x\<bar> / quantum64 x)) * quantum64 x"
proof (cases "x = 0")
  case True
  then show ?thesis by (simp add: nearest64_def round_half_even_zero)
next
  case False
  define r where "r = real (round_half_even (\<bar>x\<bar> / quantum64 x)) * quantum64 x"
  have r: "0 \<le> r"
    using quantum64_pos [of x] by (simp add: r_def)
  have "nearest64 x = (if x < 0 then - 1 else 1) * r"
    using False by (simp add: nearest64_def r_def)
  then have "\<bar>nearest64 x\<bar> = r" using r by (simp add: abs_mult)
  then show ?thesis by (simp add: r_def)
qed

lemma nearest64_upper: "\<bar>nearest64 x\<bar> \<le> 2 * \<bar>x\<bar>"
proof -
  define q where "q = quantum64 x"
  define y where "y = \<bar>x\<bar> / q"
  define r where "r = real (round_half_even y)"
  have q: "0 < q" unfolding q_def by (rule quantum64_pos)
  have y: "0 \<le> y" using q by (simp add: y_def)
  have yq: "y * q = \<bar>x\<bar>" using q by (simp add: y_def)
  have "r \<le> 2 * y"
  proof (cases "y < 1 / 2")
    case True
    then show ?thesis using y round_half_even_zero [OF y True] by (simp add: r_def)
  next
    case False
    then show ?thesis using round_half_even_upper [OF y] by (simp add: r_def)
  qed
  then have "r * q \<le> (2 * y) * q"
    using q by (intro mult_right_mono) simp_all
  then have "r * q \<le> 2 * \<bar>x\<bar>" using yq by (simp add: mult.assoc)
  then show ?thesis by (simp add: nearest64_abs r_def y_def q_def)
qed

lemma nearest64_lower:
  assumes "pow2 (- 1074) \<le> \<bar>x\<bar>"
  shows "\<bar>x\<bar> / 2 \<le> \<bar>nearest64 x\<bar>"
proof -
  define q where "q = quantum64 x"
  define y where "y = \<bar>x\<bar> / q"
  define r where "r = real (round_half_even y)"
  have q: "0 < q" unfolding q_def by (rule quantum64_pos)
  have yq: "y * q = \<bar>x\<bar>" using q by (simp add: y_def)
  have y1: "1 \<le> y" using quantum64_le [OF assms] q by (simp add: y_def q_def)
  then have y: "0 \<le> y" by linarith
  have "y - 1 / 2 \<le> r" unfolding r_def using y by (rule round_half_even_lower)
  then have "y / 2 \<le> r" using y1 by linarith
  then have "(y / 2) * q \<le> r * q"
    using q by (intro mult_right_mono) simp_all
  then have "\<bar>x\<bar> / 2 \<le> r * q" using yq by simp
  then show ?thesis by (simp add: nearest64_abs r_def y_def q_def)
qed

lemma nearest64_nonneg: "0 \<le> x \<Longrightarrow> 0 \<le> nearest64 x"
  using quantum64_pos [of x] by (simp add: nearest64_def)

lemma nearest64_nonpos: "x \<le> 0 \<Longrightarrow> nearest64 x \<le> 0"
  using quantum64_pos [of x] by (simp add: nearest64_def mult_nonneg_nonneg)

lemma pow2_double: "pow2 1024 = 2 * pow2 1023"
  by (simp add: pow2_def)

lemma round64_Finite: "\<bar>x\<bar> < pow2 1023 \<Longrightarrow> round64 x = Finite (nearest64 x)"
  using nearest64_upper [of x] by (simp add: round64_def Let_def pow2_double)

lemma nearest64_pos:
  assumes "pow2 (- 1074) \<le> x"
  shows "x / 2 \<le> nearest64 x"
proof -
  have "0 < pow2 (- 1074)" by (rule pow2_pos)
  then have x: "0 < x" using assms by linarith
  then have "\<bar>x\<bar> / 2 \<le> \<bar>nearest64 x\<bar>" using assms by (intro nearest64_lower) simp
  then show ?thesis using x nearest64_nonneg [of x] by simp
qed

lemma nearest64_neg:
  assumes "x \<le> - pow2 (- 1074)"
  shows "nearest64 x \<le> x / 2"
proof -
  have "0 < pow2 (- 1074)" by (rule pow2_pos)
  then have x: "x < 0" using assms by linarith
  then have "\<bar>x\<bar> / 2 \<le> \<bar>nearest64 x\<bar>" using assms by (intro nearest64_lower) simp
  then show ?thesis using x nearest64_nonpos [of x] by simp
qed

lemmas round64_eval =
  round64_def nearest64_def quantum64_def pow2_def round_half_even_def Let_def
  normalise2_done normalise2_up normalise2_down f_inf_def

lemma round64_zero: "round64 0 = Finite 0"
  using pow2_pos [of 1024] by (simp add: round64_def nearest64_def Let_def)

lemma pow2_tiny: "pow2 (- 1074) \<le> 1 / 32"
proof -
  have "pow2 (- 1074) \<le> pow2 (- 5)" by (rule pow2_mono) simp
  then show ?thesis by (simp add: pow2_def)
qed

lemma pow2_huge: "2 ^ 60 < pow2 1023"
proof -
  have "pow2 61 \<le> pow2 1023" by (rule pow2_mono) simp
  then show ?thesis by (simp add: pow2_def)
qed

lemma round64_bounded:
  assumes "\<bar>x\<bar> \<le> B" and "B \<le> 2 ^ 60"
  shows "round64 x = Finite (nearest64 x)" and "\<bar>nearest64 x\<bar> \<le> 2 * B"
proof -
  have "\<bar>x\<bar> < pow2 1023" using assms pow2_huge by linarith
  then show "round64 x = Finite (nearest64 x)" by (rule round64_Finite)
  show "\<bar>nearest64 x\<bar> \<le> 2 * B" using nearest64_upper [of x] assms(1) by linarith
qed

section \<open>Properties of the driver\<close>

lemmas tsl_consts =
  TSL2591_VISIBLE_def TSL2591_INFRARED_def TSL2591_FULLSPECTRUM_def
  TSL2591_COMMAND_BIT_def TSL2591_ENABLE_POWEROFF_def TSL2591_ENABLE_POWERON_def
  TSL2591_ENABLE_AEN_def TSL2591_ENABLE_AIEN_def TSL2591_ENABLE_NPIEN_def
  TSL2591_LUX_DF_def TSL2591_REGISTER_ENABLE_def TSL2591_REGISTER_CONTROL_def
  TSL2591_REGISTER_CHAN0_LOW_def
  TSL2591_INTEGRATIONTIME_100MS_def TSL2591_INTEGRATIONTIME_200MS_def
  TSL2591_INTEGRATIONTIME_300MS_def TSL2591_INTEGRATIONTIME_400MS_def
  TSL2591_INTEGRATIONTIME_500MS_def TSL2591_INTEGRATIONTIME_600MS_def
  TSL2591_GAIN_LOW_def TSL2591_GAIN_MED_def TSL2591_GAIN_HIGH_def TSL2591_GAIN_MAX_def

lemmas example_defs = steady_bus_def handle_def

lemma int_time_bounds: "100 \<le> int_time_of t \<and> int_time_of t \<le> 600"
  by (simp add: int_time_of_def)

lemma adj_gain_bounds: "1 \<le> adj_gain_of g \<and> adj_gain_of g \<le> 9876"
  by (simp add: adj_gain_of_def)

text \<open>The counts per lux are a positive finite number for every setting.\<close>

lemma counts_per_lux:
  "f_div (f_mul (Finite (int_time_of t)) (Finite (adj_gain_of g))) (Finite 408)
     = Finite (nearest64 (nearest64 (int_time_of t * adj_gain_of g) / 408))
   \<and> 25 / 408 \<le> nearest64 (nearest64 (int_time_of t * adj_gain_of g) / 408)
   \<and> nearest64 (nearest64 (int_time_of t * adj_gain_of g) / 408) \<le> 2 ^ 26"
proof -
  define x where "x = int_time_of t * adj_gain_of g"
  define a where "a = nearest64 x"
  define z where "z = nearest64 (a / 408)"
  have lo: "100 \<le> x"
  proof -
    have "100 * 1 \<le> int_time_of t * adj_gain_of g"
      using int_time_bounds [of t] adj_gain_bounds [of g] by (intro mult_mono) simp_all
    then show ?thesis by (simp add: x_def)
  qed
  have hi: "x \<le> 2 ^ 23"
  proof -
    have "int_time_of t * adj_gain_of g \<le> 600 * 9876"
      using int_time_bounds [of t] adj_gain_bounds [of g] by (intro mult_mono) simp_all
    then show ?thesis by (simp add: x_def)
  qed
  have ax: "\<bar>x\<bar> \<le> 2 ^ 23" using lo hi by simp
  have r1: "round64 x = Finite a" and a_hi: "\<bar>a\<bar> \<le> 2 * 2 ^ 23"
    unfolding a_def using round64_bounded [OF ax] by simp_all
  have a_lo: "50 \<le> a"
  proof -
    have "pow2 (- 1074) \<le> x" using pow2_tiny lo by linarith
    then have "x / 2 \<le> nearest64 x" by (rule nearest64_pos)
    then show ?thesis using lo by (simp add: a_def)
  qed
  have q_abs: "\<bar>a / 408\<bar> \<le> 2 ^ 24" using a_hi a_lo by simp
  have r2: "round64 (a / 408) = Finite z" and z_hi: "\<bar>z\<bar> \<le> 2 * 2 ^ 24"
    unfolding z_def using round64_bounded [OF q_abs] by simp_all
  have z_lo: "25 / 408 \<le> z"
  proof -
    have "pow2 (- 1074) \<le> a / 408" using pow2_tiny a_lo by simp
    then have "a / 408 / 2 \<le> nearest64 (a / 408)" by (rule nearest64_pos)
    then show ?thesis using a_lo by (simp add: z_def)
  qed
  have "f_div (f_mul (Finite (int_time_of t)) (Finite (adj_gain_of g))) (Finite 408) = Finite z"
    using r1 r2 by (simp add: x_def)
  then show ?thesis using z_lo z_hi by (simp add: z_def a_def x_def)
qed

lemma unsigned_real_pos: "(0 < (unsigned (w::'a::len word) :: real)) = (w \<noteq> 0)"
proof -
  have "(0 < real (unat w)) = (w \<noteq> 0)"
    by (simp only: of_nat_0_less_iff unat_gt_0)
  then show ?thesis by simp
qed

lemma unsigned_real_not_neg: "\<not> (unsigned (w::'a::len word) :: real) < 0"
proof -
  have "0 \<le> real (unat w)" by (rule of_nat_0_le_iff)
  then show ?thesis by simp
qed

lemma count_bounds: "0 \<le> real (unat (w :: uint16)) \<and> real (unat w) \<le> 65535"
proof -
  have "unat w < 2 ^ LENGTH(16)" by (rule unsigned_less)
  then have "unat w \<le> 65535" by simp
  then have "real (unat w) \<le> real 65535" by (simp only: of_nat_le_iff)
  then show ?thesis using unsigned_real_not_neg [of w] by simp
qed

lemmas lux_simps =
  CalculateLux_def float64_of_uint16_def f_sub_def TSL2591_LUX_DF_def
  unsigned_eq_0_iff unsigned_real_pos unsigned_real_not_neg round64_eval

lemma count_ge_1: "(w :: uint16) \<noteq> 0 \<Longrightarrow> 1 \<le> real (unat w)"
proof -
  assume "w \<noteq> 0"
  then have "0 < unat w" by (simp add: unat_gt_0)
  then have "1 \<le> unat w" by simp
  then have "real 1 \<le> real (unat w)" by (simp only: of_nat_le_iff)
  then show ?thesis by simp
qed

lemma CalculateLux_dark:
  assumes "ch1 \<noteq> 0xFFFF"
  shows "CalculateLux tsl 0 ch1 = Inr (if ch1 = 0 then NaN else PosInf)"
proof -
  define c where "c = real (unat ch1)"
  obtain z where cpl: "f_div (f_mul (Finite (int_time_of (Timing tsl))) (Finite (adj_gain_of (Gain tsl))))
        (Finite 408) = Finite z" and z: "25 / 408 \<le> z"
    using counts_per_lux [of "Timing tsl" "Gain tsl"] by blast
  have unfolded: "CalculateLux tsl 0 ch1 =
      Inr (f_div (f_mul (f_add (Finite 0) (Finite (- c)))
                        (f_add (Finite 1) (f_neg (f_div (Finite c) (Finite 0)))))
                 (Finite z))"
    using assms cpl
    by (simp add: CalculateLux_def Let_def float64_of_uint16_def f_sub_def TSL2591_LUX_DF_def c_def)
  show ?thesis
  proof (cases "ch1 = 0")
    case True
    then have "c = 0" by (simp add: c_def)
    then show ?thesis using unfolded True by (simp add: round64_zero)
  next
    case False
    then have c1: "1 \<le> c" unfolding c_def by (rule count_ge_1)
    have cb: "\<bar>- c\<bar> \<le> 65535" using count_bounds [of ch1] by (simp add: c_def)
    have r: "round64 (- c) = Finite (nearest64 (- c))"
      using round64_bounded(1) [OF cb] by simp
    have "- c \<le> - pow2 (- 1074)" using pow2_tiny c1 by linarith
    then have "nearest64 (- c) \<le> - c / 2" by (rule nearest64_neg)
    then have neg: "nearest64 (- c) < 0" using c1 by linarith
    have "f_div (f_mul (f_add (Finite 0) (Finite (- c)))
                        (f_add (Finite 1) (f_neg (f_div (Finite c) (Finite 0)))))
                 (Finite z) = PosInf"
      using r neg c1 z by (simp add: f_inf_def)
    then show ?thesis using unfolded False by simp
  qed
qed

text \<open>
  C1. \<open>CalculateLux\<close> returns an error exactly when one of the two counts is
  \<open>0xFFFF\<close>, and that error is the overflow error; every other pair of counts gives a
  value. A zero \<open>ch0\<close> with an unsaturated \<open>ch1\<close> gives no error: the unguarded
  division yields NaN when \<open>ch1\<close> is zero too and \<open>+Inf\<close> otherwise.
\<close>

theorem CalculateLux_overflow_iff:
  "isl (CalculateLux tsl ch0 ch1) = (ch0 = 0xFFFF \<or> ch1 = 0xFFFF)
   \<and> (CalculateLux tsl ch0 ch1 = Inl e \<longrightarrow> e = Overflow ch0 ch1)
   \<and> (ch1 \<noteq> 0xFFFF \<longrightarrow> CalculateLux tsl 0 ch1 = Inr (if ch1 = 0 then NaN else PosInf))"
proof -
  have "isl (CalculateLux tsl ch0 ch1) = (ch0 = 0xFFFF \<or> ch1 = 0xFFFF)"
    by (simp add: CalculateLux_def Let_def)
  moreover have "CalculateLux tsl ch0 ch1 = Inl e \<longrightarrow> e = Overflow ch0 ch1"
    by (auto simp add: CalculateLux_def Let_def split: if_splits)
  ultimately show ?thesis using CalculateLux_dark [of ch1 tsl] by simp
qed

theorem CalculateLux_overflow_iff_witness:
  "CalculateLux (handle True TSL2591_INTEGRATIONTIME_300MS TSL2591_GAIN_LOW (steady_bus True None))
      0xFFFF 100 = Inl (Overflow 0xFFFF 100)
   \<and> CalculateLux (handle True TSL2591_INTEGRATIONTIME_300MS TSL2591_GAIN_LOW (steady_bus True None))
      0 0 = Inr NaN
   \<and> CalculateLux (handle True TSL2591_INTEGRATIONTIME_300MS TSL2591_GAIN_LOW (steady_bus True None))
      0 7 = Inr PosInf"
proof -
  let ?h = "handle True TSL2591_INTEGRATIONTIME_300MS TSL2591_GAIN_LOW (steady_bus True None)"
  have a: "isl (CalculateLux ?h 0xFFFF 100)"
    using CalculateLux_overflow_iff [where tsl = ?h and ?ch0.0 = "0xFFFF" and ?ch1.0 = 100]
    by simp
  then obtain e where e: "CalculateLux ?h 0xFFFF 100 = Inl e"
    by (cases "CalculateLux ?h 0xFFFF 100") simp_all
  have "e = Overflow 0xFFFF 100"
    using CalculateLux_overflow_iff [where tsl = ?h and ?ch0.0 = "0xFFFF" and ?ch1.0 = 100 and e = e] e
    by simp
  with e have 1: "CalculateLux ?h 0xFFFF 100 = Inl (Overflow 0xFFFF 100)" by simp
  have 2: "CalculateLux ?h 0 0 = Inr NaN"
    using CalculateLux_overflow_iff [where tsl = ?h and ?ch1.0 = 0] by simp
  have 3: "CalculateLux ?h 0 7 = Inr PosInf"
    using CalculateLux_overflow_iff [where tsl = ?h and ?ch1.0 = 7] by simp
  from 1 2 3 show ?thesis by simp
qed

text \<open>
  C2. When neither count is \<open>0xFFFF\<close> and \<open>ch0\<close> is not zero, the value returned is
  \<open>(ch0 - ch1) * (1 - ch1 / ch0) / cpl\<close> with \<open>cpl = int_time * adj_gain / 408\<close>,
  the two factors read from the tables for the handle's timing and gain, each of the
  six operations rounded to binary64. No operation overflows or meets a special value.
\<close>

theorem CalculateLux_formula:
  assumes "ch0 \<noteq> 0xFFFF" and "ch1 \<noteq> 0xFFFF" and "ch0 \<noteq> 0"
  shows "CalculateLux tsl ch0 ch1 =
     Inr (Finite
       (nearest64
          (nearest64 (nearest64 (real (unat ch0) - real (unat ch1))
                      * nearest64 (1 - nearest64 (real (unat ch1) / real (unat ch0))))
           / nearest64 (nearest64 (int_time_of (Timing tsl) * adj_gain_of (Gain tsl)) / 408))))"
proof -
  define c0 where "c0 = real (unat ch0)"
  define c1 where "c1 = real (unat ch1)"
  define z where "z = nearest64 (nearest64 (int_time_of (Timing tsl) * adj_gain_of (Gain tsl)) / 408)"
  define d where "d = nearest64 (c0 - c1)"
  define q where "q = nearest64 (c1 / c0)"
  define s where "s = nearest64 (1 - q)"
  define p where "p = nearest64 (d * s)"
  have cpl: "f_div (f_mul (Finite (int_time_of (Timing tsl))) (Finite (adj_gain_of (Gain tsl))))
        (Finite 408) = Finite z" and z: "25 / 408 \<le> z"
    using counts_per_lux [of "Timing tsl" "Gain tsl"] by (simp_all add: z_def)
  have c0: "1 \<le> c0" "c0 \<le> 65535"
    using count_ge_1 [OF assms(3)] count_bounds [of ch0] by (simp_all add: c0_def)
  have c1: "0 \<le> c1" "c1 \<le> 65535"
    using count_bounds [of ch1] by (simp_all add: c1_def)
  have "\<bar>c0 - c1\<bar> \<le> 65535" using c0 c1 by linarith
  from round64_bounded [OF this]
  have rd: "round64 (c0 - c1) = Finite d" and d: "\<bar>d\<bar> \<le> 2 ^ 17"
    by (simp_all add: d_def)
  have "c1 / c0 \<le> 65535 / 1" using c0 c1 by (intro frac_le) simp_all
  then have "\<bar>c1 / c0\<bar> \<le> 65535" using c0 c1 by simp
  from round64_bounded [OF this]
  have rq: "round64 (c1 / c0) = Finite q" and q: "\<bar>q\<bar> \<le> 2 ^ 17"
    by (simp_all add: q_def)
  have "\<bar>1 - q\<bar> \<le> 2 ^ 18" using q by (simp add: abs_le_iff)
  from round64_bounded [OF this]
  have rs: "round64 (1 - q) = Finite s" and s: "\<bar>s\<bar> \<le> 2 ^ 19"
    by (simp_all add: s_def)
  have "\<bar>d\<bar> * \<bar>s\<bar> \<le> 2 ^ 17 * 2 ^ 19" using d s by (intro mult_mono) simp_all
  then have "\<bar>d * s\<bar> \<le> 2 ^ 36" by (simp add: abs_mult)
  from round64_bounded [OF this]
  have rp: "round64 (d * s) = Finite p" and p: "\<bar>p\<bar> \<le> 2 ^ 37"
    by (simp_all add: p_def)
  have zp: "0 < z" using z by linarith
  have "\<bar>p\<bar> / z \<le> 2 ^ 37 / (25 / 408)" using p z by (intro frac_le) simp_all
  moreover have "(2::real) ^ 37 / (25 / 408) \<le> 2 ^ 42" by simp
  moreover have "\<bar>p / z\<bar> = \<bar>p\<bar> / z" using zp by (simp only: abs_divide abs_of_pos)
  ultimately have "\<bar>p / z\<bar> \<le> 2 ^ 42" by (simp only: order_trans)
  from round64_bounded(1) [OF this]
  have rl: "round64 (p / z) = Finite (nearest64 (p / z))" by simp
  have zn: "z \<noteq> 0" using z by linarith
  have c0n: "c0 \<noteq> 0" using c0 by linarith
  have unfolded: "CalculateLux tsl ch0 ch1 =
      Inr (f_div (f_mul (f_add (Finite c0) (Finite (- c1)))
                        (f_add (Finite 1) (f_neg (f_div (Finite c1) (Finite c0)))))
                 (Finite z))"
    using assms cpl
    by (simp add: CalculateLux_def Let_def float64_of_uint16_def f_sub_def TSL2591_LUX_DF_def
          c0_def c1_def)
  have "f_div (f_mul (f_add (Finite c0) (Finite (- c1)))
                        (f_add (Finite 1) (f_neg (f_div (Finite c1) (Finite c0)))))
                 (Finite z) = Finite (nearest64 (p / z))"
    using rd rq rs rp rl zn c0n by simp
  then have "CalculateLux tsl ch0 ch1 = Inr (Finite (nearest64 (p / z)))"
    using unfolded by simp
  then show ?thesis by (simp only: p_def s_def q_def d_def z_def c0_def c1_def)
qed

text \<open>The tables, the example of 10000 and 2000 counts at low gain and 300 ms, and
  an input where the rounding shows: 128 and 117 counts give the binary64 value next to
  1.285625.\<close>

theorem CalculateLux_formula_witness:
  "map int_time_of [TSL2591_INTEGRATIONTIME_100MS, TSL2591_INTEGRATIONTIME_200MS,
       TSL2591_INTEGRATIONTIME_300MS, TSL2591_INTEGRATIONTIME_400MS,
       TSL2591_INTEGRATIONTIME_500MS, TSL2591_INTEGRATIONTIME_600MS]
     = [100, 200, 300, 400, 500, 600]
   \<and> map adj_gain_of [TSL2591_GAIN_LOW, TSL2591_GAIN_MED, TSL2591_GAIN_HIGH, TSL2591_GAIN_MAX]
     = [1, 25, 428, 9876]
   \<and> CalculateLux (handle True TSL2591_INTEGRATIONTIME_300MS TSL2591_GAIN_LOW (steady_bus True None))
        10000 2000 = Inr (Finite 8704)
   \<and> CalculateLux (handle True TSL2591_INTEGRATIONTIME_300MS TSL2591_GAIN_LOW (steady_bus True None))
        128 117 = Inr (Finite (2894970135469097 / 2251799813685248))"
proof -
  let ?h = "handle True TSL2591_INTEGRATIONTIME_300MS TSL2591_GAIN_LOW (steady_bus True None)"
  have tables:
    "map int_time_of [TSL2591_INTEGRATIONTIME_100MS, TSL2591_INTEGRATIONTIME_200MS,
       TSL2591_INTEGRATIONTIME_300MS, TSL2591_INTEGRATIONTIME_400MS,
       TSL2591_INTEGRATIONTIME_500MS, TSL2591_INTEGRATIONTIME_600MS]
     = [100, 200, 300, 400, 500, 600]"
    "map adj_gain_of [TSL2591_GAIN_LOW, TSL2591_GAIN_MED, TSL2591_GAIN_HIGH, TSL2591_GAIN_MAX]
     = [1, 25, 428, 9876]"
    by (simp_all add: int_time_of_def adj_gain_of_def tsl_consts)
  have a: "CalculateLux ?h 10000 2000 = Inr (Finite 8704)"
    using CalculateLux_formula [of 10000 2000 ?h]
    by (simp add: example_defs int_time_of_def adj_gain_of_def tsl_consts round64_eval)
  have b: "CalculateLux ?h 128 117 = Inr (Finite (2894970135469097 / 2251799813685248))"
    using CalculateLux_formula [of 128 117 ?h]
    by (simp add: example_defs int_time_of_def adj_gain_of_def tsl_consts round64_eval)
  from tables a b show ?thesis by simp
qed

text \<open>
  C10. A timing byte that is none of the six constants gives the result of the 100 ms
  setting, a gain byte that is none of the four constants gives the result of the low
  gain, and whatever the two bytes are, counts that are not \<open>0xFFFF\<close> give a value.
\<close>

theorem CalculateLux_total_over_settings:
  "(t \<notin> {TSL2591_INTEGRATIONTIME_100MS, TSL2591_INTEGRATIONTIME_200MS,
           TSL2591_INTEGRATIONTIME_300MS, TSL2591_INTEGRATIONTIME_400MS,
           TSL2591_INTEGRATIONTIME_500MS, TSL2591_INTEGRATIONTIME_600MS}
      \<longrightarrow> CalculateLux (tsl\<lparr>Timing := t\<rparr>) ch0 ch1
          = CalculateLux (tsl\<lparr>Timing := TSL2591_INTEGRATIONTIME_100MS\<rparr>) ch0 ch1)
   \<and> (g \<notin> {TSL2591_GAIN_LOW, TSL2591_GAIN_MED, TSL2591_GAIN_HIGH, TSL2591_GAIN_MAX}
      \<longrightarrow> CalculateLux (tsl\<lparr>Gain := g\<rparr>) ch0 ch1
          = CalculateLux (tsl\<lparr>Gain := TSL2591_GAIN_LOW\<rparr>) ch0 ch1)
   \<and> (ch0 \<noteq> 0xFFFF \<and> ch1 \<noteq> 0xFFFF
      \<longrightarrow> (\<exists>v. CalculateLux (tsl\<lparr>Timing := t, Gain := g\<rparr>) ch0 ch1 = Inr v))"
  by (simp add: CalculateLux_def Let_def int_time_of_def adj_gain_of_def)

theorem CalculateLux_total_over_settings_witness:
  "CalculateLux (handle True 0x07 0x40 (steady_bus True None)) 10000 2000
     = Inr (Finite (8000 * (8 / 10) / (100 * 1 / 408)))"
proof -
  let ?h = "handle True 0x07 0x40 (steady_bus True None)"
  have t: "(0x07::byte) \<notin> {TSL2591_INTEGRATIONTIME_100MS, TSL2591_INTEGRATIONTIME_200MS,
           TSL2591_INTEGRATIONTIME_300MS, TSL2591_INTEGRATIONTIME_400MS,
           TSL2591_INTEGRATIONTIME_500MS, TSL2591_INTEGRATIONTIME_600MS}"
    by (simp add: tsl_consts)
  have g: "(0x40::byte) \<notin> {TSL2591_GAIN_LOW, TSL2591_GAIN_MED, TSL2591_GAIN_HIGH, TSL2591_GAIN_MAX}"
    by (simp add: tsl_consts)
  have "CalculateLux ?h 10000 2000
      = CalculateLux (handle True TSL2591_INTEGRATIONTIME_100MS 0x40 (steady_bus True None)) 10000 2000"
    using t CalculateLux_total_over_settings [where tsl = ?h and t = "0x07" and ?ch0.0 = 10000 and ?ch1.0 = 2000]
    by (simp add: handle_def)
  also have "\<dots> = CalculateLux (handle True TSL2591_INTEGRATIONTIME_100MS TSL2591_GAIN_LOW (steady_bus True None)) 10000 2000"
    using g CalculateLux_total_over_settings
      [where tsl = "handle True TSL2591_INTEGRATIONTIME_100MS 0x40 (steady_bus True None)"
         and g = "0x40" and ?ch0.0 = 10000 and ?ch1.0 = 2000]
    by (simp add: handle_def)
  also have "\<dots> = Inr (Finite (8000 * (8 / 10) / (100 * 1 / 408)))"
    by (simp add: handle_def lux_simps int_time_of_def adj_gain_of_def tsl_consts)
  finally show ?thesis .
qed

text \<open>
  C6. On a disabled handle \<open>SetGain\<close> and \<open>SetTiming\<close> return the not-enabled error
  and change nothing. On an enabled handle each makes exactly one write, to the control
  register: \<open>SetGain g\<close> writes the stored timing OR-ed with \<open>g\<close>, keeps the stored
  timing, and stores \<open>g\<close> exactly when the write succeeds; \<open>SetTiming t\<close> writes
  \<open>t\<close> OR-ed with the stored gain, keeps the stored gain, and stores \<open>t\<close> exactly
  when the write succeeds.
\<close>

theorem SetGain_SetTiming_control_byte:
  "(\<not> Enabled tsl \<longrightarrow>
      SetGain g tsl = (Some SensorMustBeEnabled, tsl)
    \<and> SetTiming t tsl = (Some SensorMustBeEnabled, tsl))
   \<and> (Enabled tsl \<longrightarrow>
      fst (SetGain g tsl) = (if write_ok (Device tsl) (writes (Device tsl)) then None else Some BusError)
    \<and> written (Device (snd (SetGain g tsl)))
        = written (Device tsl) @ [(TSL2591_COMMAND_BIT OR TSL2591_REGISTER_CONTROL, Timing tsl OR g)]
    \<and> Timing (snd (SetGain g tsl)) = Timing tsl
    \<and> Gain (snd (SetGain g tsl)) = (if write_ok (Device tsl) (writes (Device tsl)) then g else Gain tsl)
    \<and> Enabled (snd (SetGain g tsl))
    \<and> fst (SetTiming t tsl) = (if write_ok (Device tsl) (writes (Device tsl)) then None else Some BusError)
    \<and> written (Device (snd (SetTiming t tsl)))
        = written (Device tsl) @ [(TSL2591_COMMAND_BIT OR TSL2591_REGISTER_CONTROL, t OR Gain tsl)]
    \<and> Gain (snd (SetTiming t tsl)) = Gain tsl
    \<and> Timing (snd (SetTiming t tsl)) = (if write_ok (Device tsl) (writes (Device tsl)) then t else Timing tsl)
    \<and> Enabled (snd (SetTiming t tsl)))"
  by (simp add: SetGain_def SetTiming_def WriteReg_def Let_def)

theorem SetGain_SetTiming_control_byte_witness:
  "SetGain TSL2591_GAIN_MED (handle False TSL2591_INTEGRATIONTIME_300MS TSL2591_GAIN_LOW (steady_bus True None))
     = (Some SensorMustBeEnabled,
        handle False TSL2591_INTEGRATIONTIME_300MS TSL2591_GAIN_LOW (steady_bus True None))
   \<and> written (Device (snd (SetGain TSL2591_GAIN_MED
        (handle True TSL2591_INTEGRATIONTIME_300MS TSL2591_GAIN_LOW (steady_bus True None)))))
     = [(0xA1, 0x12)]
   \<and> Gain (snd (SetGain TSL2591_GAIN_MED
        (handle True TSL2591_INTEGRATIONTIME_300MS TSL2591_GAIN_LOW (steady_bus True None))))
     = TSL2591_GAIN_MED
   \<and> Gain (snd (SetGain TSL2591_GAIN_MED
        (handle True TSL2591_INTEGRATIONTIME_300MS TSL2591_GAIN_LOW (steady_bus False None))))
     = TSL2591_GAIN_LOW
   \<and> written (Device (snd (SetTiming TSL2591_INTEGRATIONTIME_600MS
        (handle True TSL2591_INTEGRATIONTIME_300MS TSL2591_GAIN_HIGH (steady_bus True None)))))
     = [(0xA1, 0x25)]"
  using SetGain_SetTiming_control_byte
          [of "handle False TSL2591_INTEGRATIONTIME_300MS TSL2591_GAIN_LOW (steady_bus True None)"
              TSL2591_GAIN_MED TSL2591_INTEGRATIONTIME_600MS]
        SetGain_SetTiming_control_byte
          [of "handle True TSL2591_INTEGRATIONTIME_300MS TSL2591_GAIN_LOW (steady_bus True None)"
              TSL2591_GAIN_MED TSL2591_INTEGRATIONTIME_600MS]
        SetGain_SetTiming_control_byte
          [of "handle True TSL2591_INTEGRATIONTIME_300MS TSL2591_GAIN_LOW (steady_bus False None)"
              TSL2591_GAIN_MED TSL2591_INTEGRATIONTIME_600MS]
        SetGain_SetTiming_control_byte
          [of "handle True TSL2591_INTEGRATIONTIME_300MS TSL2591_GAIN_HIGH (steady_bus True None)"
              TSL2591_GAIN_MED TSL2591_INTEGRATIONTIME_600MS]
  by (simp add: example_defs tsl_consts)

text \<open>
  C7. \<open>Enable\<close> on an enabled handle and \<open>Disable\<close> on a disabled one return no error
  and leave the handle, the bus included, as it was. Otherwise each makes exactly one
  write to the enable register: \<open>Enable\<close> writes the power-on, ALS-enable,
  ALS-interrupt-enable and no-persist-interrupt-enable bits, \<open>Disable\<close> writes the
  zero byte, and the enabled flag changes exactly when the write succeeds. Timing and
  gain are untouched.
\<close>

theorem Enable_Disable_idempotent:
  "(Enabled tsl \<longrightarrow> Enable tsl = (None, tsl))
   \<and> (\<not> Enabled tsl \<longrightarrow> Disable tsl = (None, tsl))
   \<and> (\<not> Enabled tsl \<longrightarrow>
        fst (Enable tsl) = (if write_ok (Device tsl) (writes (Device tsl)) then None else Some BusError)
      \<and> written (Device (snd (Enable tsl)))
          = written (Device tsl)
            @ [(TSL2591_COMMAND_BIT OR TSL2591_REGISTER_ENABLE,
                TSL2591_ENABLE_POWERON OR TSL2591_ENABLE_AEN OR TSL2591_ENABLE_AIEN
                  OR TSL2591_ENABLE_NPIEN)]
      \<and> Enabled (snd (Enable tsl)) = write_ok (Device tsl) (writes (Device tsl))
      \<and> Timing (snd (Enable tsl)) = Timing tsl \<and> Gain (snd (Enable tsl)) = Gain tsl)
   \<and> (Enabled tsl \<longrightarrow>
        fst (Disable tsl) = (if write_ok (Device tsl) (writes (Device tsl)) then None else Some BusError)
      \<and> written (Device (snd (Disable tsl)))
          = written (Device tsl) @ [(TSL2591_COMMAND_BIT OR TSL2591_REGISTER_ENABLE, 0)]
      \<and> Enabled (snd (Disable tsl)) = (\<not> write_ok (Device tsl) (writes (Device tsl)))
      \<and> Timing (snd (Disable tsl)) = Timing tsl \<and> Gain (snd (Disable tsl)) = Gain tsl)"
  by (simp add: Enable_def Disable_def WriteReg_def Let_def TSL2591_ENABLE_POWEROFF_def)

theorem Enable_Disable_idempotent_witness:
  "Enable (snd (Enable (handle False TSL2591_INTEGRATIONTIME_300MS TSL2591_GAIN_LOW (steady_bus True None))))
     = (None, snd (Enable (handle False TSL2591_INTEGRATIONTIME_300MS TSL2591_GAIN_LOW (steady_bus True None))))
   \<and> written (Device (snd (Enable
         (handle False TSL2591_INTEGRATIONTIME_300MS TSL2591_GAIN_LOW (steady_bus True None)))))
     = [(0xA0, 0x93)]
   \<and> Disable (handle False TSL2591_INTEGRATIONTIME_300MS TSL2591_GAIN_LOW (steady_bus True None))
     = (None, handle False TSL2591_INTEGRATIONTIME_300MS TSL2591_GAIN_LOW (steady_bus True None))
   \<and> written (Device (snd (Disable
         (handle True TSL2591_INTEGRATIONTIME_300MS TSL2591_GAIN_LOW (steady_bus True None)))))
     = [(0xA0, 0x00)]
   \<and> Enabled (snd (Disable
         (handle True TSL2591_INTEGRATIONTIME_300MS TSL2591_GAIN_LOW (steady_bus False None))))"
proof -
  let ?off = "handle False TSL2591_INTEGRATIONTIME_300MS TSL2591_GAIN_LOW (steady_bus True None)"
  let ?on = "handle True TSL2591_INTEGRATIONTIME_300MS TSL2591_GAIN_LOW (steady_bus True None)"
  let ?stuck = "handle True TSL2591_INTEGRATIONTIME_300MS TSL2591_GAIN_LOW (steady_bus False None)"
  have off: "\<not> Enabled ?off" and on: "Enabled ?on" and stuck: "Enabled ?stuck"
    by (simp_all add: handle_def)
  have w: "write_ok (Device ?off) (writes (Device ?off))"
    by (simp add: example_defs)
  have en: "Enabled (snd (Enable ?off))"
    using Enable_Disable_idempotent [of ?off] off w by simp
  have 1: "Enable (snd (Enable ?off)) = (None, snd (Enable ?off))"
    using Enable_Disable_idempotent [of "snd (Enable ?off)"] en by simp
  have 2: "written (Device (snd (Enable ?off))) = [(0xA0, 0x93)]"
    using Enable_Disable_idempotent [of ?off] off by (simp add: example_defs tsl_consts)
  have 3: "Disable ?off = (None, ?off)"
    using Enable_Disable_idempotent [of ?off] off by simp
  have 4: "written (Device (snd (Disable ?on))) = [(0xA0, 0x00)]"
    using Enable_Disable_idempotent [of ?on] on by (simp add: example_defs tsl_consts)
  have 5: "Enabled (snd (Disable ?stuck))"
    using Enable_Disable_idempotent [of ?stuck] stuck by (simp add: example_defs)
  from 1 2 3 4 5 show ?thesis by simp
qed

section \<open>The calibration search\<close>

lemma f_eq_Finite: "f_eq x (Finite a) = (x = Finite a)"
  by (cases x) simp_all

lemma CalculateLux_settings:
  "Timing a = Timing b \<Longrightarrow> Gain a = Gain b \<Longrightarrow> CalculateLux a ch0 ch1 = CalculateLux b ch0 ch1"
  by (simp add: CalculateLux_def)

lemma skipped_handle: "skipped a g t r = skipped b g t r"
  by (simp add: skipped_def CalculateLux_settings [of "a\<lparr>Gain := g, Timing := t\<rparr>" "b\<lparr>Gain := g, Timing := t\<rparr>"]
           split: option.splits)

lemma search_handle:
  "read_data (Device a) = read_data (Device b) \<Longrightarrow> search a cs n = search b cs n"
  by (induction cs arbitrary: n) (auto simp add: skipped_handle [of a _ _ _ b])

lemma search_append:
  "search tsl (xs @ ys) n =
     (case search tsl xs n of Some r \<Rightarrow> Some r | None \<Rightarrow> search tsl ys (n + length xs))"
  by (induction xs arbitrary: n) (auto split: option.splits)

text \<open>One pass of the inner loop on an enabled handle whose next write succeeds.\<close>

lemma integration_loop_step:
  assumes "Enabled tsl" and "write_ok (Device tsl) (writes (Device tsl))"
  shows "integration_loop (time # rest) tsl =
     (let tsl2 = tsl\<lparr>Timing := time,
                   Device := (Device tsl)
                     \<lparr>writes := Suc (writes (Device tsl)),
                      written := written (Device tsl)
                        @ [(TSL2591_COMMAND_BIT OR TSL2591_REGISTER_CONTROL, time OR Gain tsl)],
                      reads := Suc (reads (Device tsl))\<rparr>\<rparr>
      in if skipped tsl (Gain tsl) time (read_data (Device tsl) (reads (Device tsl)))
         then integration_loop rest tsl2 else (True, tsl2))"
proof (cases "read_data (Device tsl) (reads (Device tsl))")
  case None
  then show ?thesis
    using assms
    by (simp add: SetTiming_def WriteReg_def GetFullLuminosity_def ReadReg4_def skipped_def Let_def)
next
  case (Some bs)
  obtain b0 b1 b2 b3 where bs: "bs = (b0, b1, b2, b3)" by (cases bs) auto
  let ?ch0 = "LittleEndian_Uint16 b0 b1" and ?ch1 = "LittleEndian_Uint16 b2 b3"
  show ?thesis
  proof (cases "?ch0 = 0xFFFF \<or> ?ch1 = 0xFFFF")
    case True
    then show ?thesis
      using assms Some bs
      by (auto simp add: SetTiming_def WriteReg_def GetFullLuminosity_def ReadReg4_def skipped_def Let_def)
  next
    case False
    then obtain v where v: "CalculateLux (tsl\<lparr>Gain := Gain tsl, Timing := time\<rparr>) ?ch0 ?ch1 = Inr v"
      by (auto simp add: CalculateLux_def Let_def)
    have "\<And>d. CalculateLux (tsl\<lparr>Timing := time, Device := d\<rparr>) ?ch0 ?ch1
                = CalculateLux (tsl\<lparr>Gain := Gain tsl, Timing := time\<rparr>) ?ch0 ?ch1"
      by (rule CalculateLux_settings) simp_all
    then have same: "\<And>d. CalculateLux (tsl\<lparr>Timing := time, Device := d\<rparr>) ?ch0 ?ch1 = Inr v"
      using v by simp
    show ?thesis
      using assms Some bs False v same
      by (simp add: SetTiming_def WriteReg_def GetFullLuminosity_def ReadReg4_def skipped_def Let_def
            f_eq_Finite)
  qed
qed

lemma integration_loop_search:
  assumes "Enabled tsl" and "\<forall>n. write_ok (Device tsl) n"
  shows "(case search tsl (map (Pair (Gain tsl)) ts) (reads (Device tsl)) of
            Some (g, t, n) \<Rightarrow>
              fst (integration_loop ts tsl) \<and> g = Gain tsl
              \<and> Timing (snd (integration_loop ts tsl)) = t
              \<and> reads (Device (snd (integration_loop ts tsl))) = n
          | None \<Rightarrow>
              \<not> fst (integration_loop ts tsl)
              \<and> reads (Device (snd (integration_loop ts tsl))) = reads (Device tsl) + length ts)
         \<and> Enabled (snd (integration_loop ts tsl))
         \<and> Gain (snd (integration_loop ts tsl)) = Gain tsl
         \<and> write_ok (Device (snd (integration_loop ts tsl))) = write_ok (Device tsl)
         \<and> read_data (Device (snd (integration_loop ts tsl))) = read_data (Device tsl)"
  using assms
proof (induction ts arbitrary: tsl)
  case Nil
  then show ?case by simp
next
  case (Cons time rest)
  let ?tsl2 = "tsl\<lparr>Timing := time,
                   Device := (Device tsl)
                     \<lparr>writes := Suc (writes (Device tsl)),
                      written := written (Device tsl)
                        @ [(TSL2591_COMMAND_BIT OR TSL2591_REGISTER_CONTROL, time OR Gain tsl)],
                      reads := Suc (reads (Device tsl))\<rparr>\<rparr>"
  have step: "integration_loop (time # rest) tsl =
      (if skipped tsl (Gain tsl) time (read_data (Device tsl) (reads (Device tsl)))
       then integration_loop rest ?tsl2 else (True, ?tsl2))"
    using integration_loop_step [of tsl time rest] Cons.prems by (simp add: Let_def)
  show ?case
  proof (cases "skipped tsl (Gain tsl) time (read_data (Device tsl) (reads (Device tsl)))")
    case False
    have eq: "integration_loop (time # rest) tsl = (True, ?tsl2)"
      unfolding step using False by simp
    show ?thesis unfolding eq using False Cons.prems by simp
  next
    case True
    have eq: "integration_loop (time # rest) tsl = integration_loop rest ?tsl2"
      unfolding step using True by simp
    have ih: "(case search ?tsl2 (map (Pair (Gain ?tsl2)) rest) (reads (Device ?tsl2)) of
            Some (g, t, n) \<Rightarrow>
              fst (integration_loop rest ?tsl2) \<and> g = Gain ?tsl2
              \<and> Timing (snd (integration_loop rest ?tsl2)) = t
              \<and> reads (Device (snd (integration_loop rest ?tsl2))) = n
          | None \<Rightarrow>
              \<not> fst (integration_loop rest ?tsl2)
              \<and> reads (Device (snd (integration_loop rest ?tsl2))) = reads (Device ?tsl2) + length rest)
         \<and> Enabled (snd (integration_loop rest ?tsl2))
         \<and> Gain (snd (integration_loop rest ?tsl2)) = Gain ?tsl2
         \<and> write_ok (Device (snd (integration_loop rest ?tsl2))) = write_ok (Device ?tsl2)
         \<and> read_data (Device (snd (integration_loop rest ?tsl2))) = read_data (Device ?tsl2)"
      using Cons.prems by (intro Cons.IH) simp_all
    have s: "search ?tsl2 (map (Pair (Gain tsl)) rest) (Suc (reads (Device tsl)))
           = search tsl (map (Pair (Gain tsl)) rest) (Suc (reads (Device tsl)))"
      by (rule search_handle) simp
    show ?thesis
      unfolding eq using ih s True by (auto split: option.splits prod.splits)
  qed
qed

text \<open>One pass of the outer loop on an enabled handle whose writes succeed.\<close>

lemma gain_loop_step:
  assumes "Enabled tsl" and "write_ok (Device tsl) (writes (Device tsl))"
  shows "gain_loop (gain # rest) tsl =
     (let tsl1 = tsl\<lparr>Device := (Device tsl)
                     \<lparr>writes := Suc (writes (Device tsl)),
                      written := written (Device tsl)
                        @ [(TSL2591_COMMAND_BIT OR TSL2591_REGISTER_CONTROL, Timing tsl OR gain)]\<rparr>,
                   Gain := gain\<rparr>
      in if fst (integration_loop integrationOptions tsl1)
         then (True, snd (integration_loop integrationOptions tsl1))
         else gain_loop rest (snd (integration_loop integrationOptions tsl1)))"
  using assms
  by (simp add: SetGain_def WriteReg_def Let_def split: prod.splits)

lemma gain_loop_search:
  assumes "Enabled tsl" and "\<forall>n. write_ok (Device tsl) n"
  shows "(case search tsl (combinations gs) (reads (Device tsl)) of
            Some (g, t, n) \<Rightarrow>
              fst (gain_loop gs tsl)
              \<and> Gain (snd (gain_loop gs tsl)) = g
              \<and> Timing (snd (gain_loop gs tsl)) = t
              \<and> reads (Device (snd (gain_loop gs tsl))) = n
          | None \<Rightarrow>
              \<not> fst (gain_loop gs tsl)
              \<and> reads (Device (snd (gain_loop gs tsl))) = reads (Device tsl) + 6 * length gs)
         \<and> Enabled (snd (gain_loop gs tsl))
         \<and> write_ok (Device (snd (gain_loop gs tsl))) = write_ok (Device tsl)
         \<and> read_data (Device (snd (gain_loop gs tsl))) = read_data (Device tsl)"
  using assms
proof (induction gs arbitrary: tsl)
  case Nil
  then show ?case by (simp add: combinations_def)
next
  case (Cons gain rest)
  let ?tsl1 = "tsl\<lparr>Device := (Device tsl)
                     \<lparr>writes := Suc (writes (Device tsl)),
                      written := written (Device tsl)
                        @ [(TSL2591_COMMAND_BIT OR TSL2591_REGISTER_CONTROL, Timing tsl OR gain)]\<rparr>,
                   Gain := gain\<rparr>"
  let ?r = "integration_loop integrationOptions ?tsl1"
  have step: "gain_loop (gain # rest) tsl =
      (if fst ?r then (True, snd ?r) else gain_loop rest (snd ?r))"
    using gain_loop_step [of tsl gain rest] Cons.prems by (simp add: Let_def)
  have inner: "(case search ?tsl1 (map (Pair (Gain ?tsl1)) integrationOptions) (reads (Device ?tsl1)) of
            Some (g, t, n) \<Rightarrow>
              fst ?r \<and> g = Gain ?tsl1 \<and> Timing (snd ?r) = t \<and> reads (Device (snd ?r)) = n
          | None \<Rightarrow>
              \<not> fst ?r
              \<and> reads (Device (snd ?r)) = reads (Device ?tsl1) + length integrationOptions)
         \<and> Enabled (snd ?r)
         \<and> Gain (snd ?r) = Gain ?tsl1
         \<and> write_ok (Device (snd ?r)) = write_ok (Device ?tsl1)
         \<and> read_data (Device (snd ?r)) = read_data (Device ?tsl1)"
    using Cons.prems by (intro integration_loop_search) simp_all
  have s1: "search ?tsl1 (map (Pair gain) integrationOptions) (reads (Device tsl))
          = search tsl (map (Pair gain) integrationOptions) (reads (Device tsl))"
    by (rule search_handle) simp
  have len: "length integrationOptions = 6"
    by (simp add: integrationOptions_def)
  have split_search: "search tsl (combinations (gain # rest)) (reads (Device tsl)) =
      (case search tsl (map (Pair gain) integrationOptions) (reads (Device tsl)) of
         Some r \<Rightarrow> Some r
       | None \<Rightarrow> search tsl (combinations rest) (reads (Device tsl) + 6))"
    by (simp add: combinations_def search_append len split: option.splits)
  show ?case
  proof (cases "search tsl (map (Pair gain) integrationOptions) (reads (Device tsl))")
    case (Some hit)
    have f: "fst ?r"
      using inner s1 Some by (auto split: prod.splits)
    have eq: "gain_loop (gain # rest) tsl = (True, snd ?r)"
      unfolding step using f by simp
    show ?thesis
      unfolding eq split_search using inner s1 Some Cons.prems by (auto split: prod.splits)
  next
    case None
    have en: "Enabled (snd ?r)" and wr: "\<forall>n. write_ok (Device (snd ?r)) n"
      using inner Cons.prems by simp_all
    have rd: "read_data (Device (snd ?r)) = read_data (Device tsl)"
      using inner by simp
    have cnt: "reads (Device (snd ?r)) = reads (Device tsl) + 6" and nf: "\<not> fst ?r"
      using inner s1 None by (simp_all add: len)
    have ih: "(case search (snd ?r) (combinations rest) (reads (Device (snd ?r))) of
            Some (g, t, n) \<Rightarrow>
              fst (gain_loop rest (snd ?r))
              \<and> Gain (snd (gain_loop rest (snd ?r))) = g
              \<and> Timing (snd (gain_loop rest (snd ?r))) = t
              \<and> reads (Device (snd (gain_loop rest (snd ?r)))) = n
          | None \<Rightarrow>
              \<not> fst (gain_loop rest (snd ?r))
              \<and> reads (Device (snd (gain_loop rest (snd ?r)))) = reads (Device (snd ?r)) + 6 * length rest)
         \<and> Enabled (snd (gain_loop rest (snd ?r)))
         \<and> write_ok (Device (snd (gain_loop rest (snd ?r)))) = write_ok (Device (snd ?r))
         \<and> read_data (Device (snd (gain_loop rest (snd ?r)))) = read_data (Device (snd ?r))"
      using en wr by (intro Cons.IH) simp_all
    have s2: "search (snd ?r) (combinations rest) (reads (Device tsl) + 6)
            = search tsl (combinations rest) (reads (Device tsl) + 6)"
      using rd by (rule search_handle)
    have wr2: "write_ok (Device (snd ?r)) = write_ok (Device tsl)"
      using inner by simp
    have eq: "gain_loop (gain # rest) tsl = gain_loop rest (snd ?r)"
      unfolding step using nf by simp
    show ?thesis
      unfolding eq split_search using ih s2 cnt rd wr2 None
      by (auto split: option.splits prod.splits)
  qed
qed

lemma combinations_gainOptions: "combinations gainOptions = search_order"
  by (simp add: combinations_def gainOptions_def integrationOptions_def search_order_def)

text \<open>
  C4, for an enabled handle whose control-register writes all succeed.
  \<open>SetOptimalGain\<close> is then the search over \<open>search_order\<close>: when the search finds a
  combination, no error is returned and that combination is the stored gain and timing,
  after exactly the reads made up to it; when every combination is skipped, the error
  is returned after 24 reads with low gain and 600 ms stored.
\<close>

theorem SetOptimalGain_search:
  assumes "Enabled tsl" and "\<forall>n. write_ok (Device tsl) n"
  shows "case search tsl search_order (reads (Device tsl)) of
           Some (g, t, n) \<Rightarrow>
             fst (SetOptimalGain tsl) = None
             \<and> Gain (snd (SetOptimalGain tsl)) = g
             \<and> Timing (snd (SetOptimalGain tsl)) = t
             \<and> reads (Device (snd (SetOptimalGain tsl))) = n
         | None \<Rightarrow>
             fst (SetOptimalGain tsl) = Some AllGainOptionsSaturated
             \<and> Gain (snd (SetOptimalGain tsl)) = TSL2591_GAIN_LOW
             \<and> Timing (snd (SetOptimalGain tsl)) = TSL2591_INTEGRATIONTIME_600MS
             \<and> reads (Device (snd (SetOptimalGain tsl))) = reads (Device tsl) + 24"
proof -
  let ?r = "gain_loop gainOptions tsl"
  have loop: "(case search tsl search_order (reads (Device tsl)) of
            Some (g, t, n) \<Rightarrow>
              fst ?r \<and> Gain (snd ?r) = g \<and> Timing (snd ?r) = t \<and> reads (Device (snd ?r)) = n
          | None \<Rightarrow>
              \<not> fst ?r \<and> reads (Device (snd ?r)) = reads (Device tsl) + 6 * length gainOptions)
         \<and> Enabled (snd ?r)
         \<and> write_ok (Device (snd ?r)) = write_ok (Device tsl)
         \<and> read_data (Device (snd ?r)) = read_data (Device tsl)"
    using gain_loop_search [OF assms, of gainOptions] by (simp only: combinations_gainOptions)
  have len: "length gainOptions = 4" by (simp add: gainOptions_def)
  show ?thesis
  proof (cases "search tsl search_order (reads (Device tsl))")
    case (Some hit)
    then have "fst ?r" using loop by (auto split: prod.splits)
    then have "SetOptimalGain tsl = (None, snd ?r)"
      by (cases ?r) (simp add: SetOptimalGain_def)
    then show ?thesis using loop Some by (auto split: prod.splits)
  next
    case None
    then have nf: "\<not> fst ?r" and cnt: "reads (Device (snd ?r)) = reads (Device tsl) + 24"
      using loop len by simp_all
    have en: "Enabled (snd ?r)" and wr: "\<And>n. write_ok (Device (snd ?r)) n"
      using loop assms by simp_all
    have "SetOptimalGain tsl =
        (Some AllGainOptionsSaturated,
         snd (SetTiming TSL2591_INTEGRATIONTIME_600MS (snd (SetGain TSL2591_GAIN_LOW (snd ?r)))))"
      using nf by (cases ?r) (simp add: SetOptimalGain_def Let_def)
    then show ?thesis
      using None en wr cnt by (simp add: SetGain_def SetTiming_def WriteReg_def Let_def)
  qed
qed

theorem SetOptimalGain_search_witness:
  "fst (SetOptimalGain (handle True TSL2591_INTEGRATIONTIME_100MS TSL2591_GAIN_HIGH
          (scripted_bus True [None, Some (0xFF, 0xFF, 0x00, 0x00), Some (0x05, 0x00, 0x05, 0x00)]
             (Some (0x10, 0x27, 0xD0, 0x07))))) = None
   \<and> Gain (snd (SetOptimalGain (handle True TSL2591_INTEGRATIONTIME_100MS TSL2591_GAIN_HIGH
          (scripted_bus True [None, Some (0xFF, 0xFF, 0x00, 0x00), Some (0x05, 0x00, 0x05, 0x00)]
             (Some (0x10, 0x27, 0xD0, 0x07)))))) = TSL2591_GAIN_LOW
   \<and> Timing (snd (SetOptimalGain (handle True TSL2591_INTEGRATIONTIME_100MS TSL2591_GAIN_HIGH
          (scripted_bus True [None, Some (0xFF, 0xFF, 0x00, 0x00), Some (0x05, 0x00, 0x05, 0x00)]
             (Some (0x10, 0x27, 0xD0, 0x07)))))) = TSL2591_INTEGRATIONTIME_300MS
   \<and> reads (Device (snd (SetOptimalGain (handle True TSL2591_INTEGRATIONTIME_100MS TSL2591_GAIN_HIGH
          (scripted_bus True [None, Some (0xFF, 0xFF, 0x00, 0x00), Some (0x05, 0x00, 0x05, 0x00)]
             (Some (0x10, 0x27, 0xD0, 0x07))))))) = 4
   \<and> fst (SetOptimalGain (handle True TSL2591_INTEGRATIONTIME_100MS TSL2591_GAIN_HIGH
          (steady_bus True (Some (0xFF, 0xFF, 0xFF, 0xFF))))) = Some AllGainOptionsSaturated
   \<and> Gain (snd (SetOptimalGain (handle True TSL2591_INTEGRATIONTIME_100MS TSL2591_GAIN_HIGH
          (steady_bus True (Some (0xFF, 0xFF, 0xFF, 0xFF)))))) = TSL2591_GAIN_LOW
   \<and> Timing (snd (SetOptimalGain (handle True TSL2591_INTEGRATIONTIME_100MS TSL2591_GAIN_HIGH
          (steady_bus True (Some (0xFF, 0xFF, 0xFF, 0xFF)))))) = TSL2591_INTEGRATIONTIME_600MS
   \<and> reads (Device (snd (SetOptimalGain (handle True TSL2591_INTEGRATIONTIME_100MS TSL2591_GAIN_HIGH
          (steady_bus True (Some (0xFF, 0xFF, 0xFF, 0xFF))))))) = 24"
proof -
  let ?a = "handle True TSL2591_INTEGRATIONTIME_100MS TSL2591_GAIN_HIGH
          (scripted_bus True [None, Some (0xFF, 0xFF, 0x00, 0x00), Some (0x05, 0x00, 0x05, 0x00)]
             (Some (0x10, 0x27, 0xD0, 0x07)))"
  let ?b = "handle True TSL2591_INTEGRATIONTIME_100MS TSL2591_GAIN_HIGH
          (steady_bus True (Some (0xFF, 0xFF, 0xFF, 0xFF)))"
  have ea: "Enabled ?a" and wa: "\<forall>n. write_ok (Device ?a) n" and ra: "reads (Device ?a) = 0"
    by (simp_all add: handle_def scripted_bus_def)
  have eb: "Enabled ?b" and wb: "\<forall>n. write_ok (Device ?b) n" and rb: "reads (Device ?b) = 0"
    by (simp_all add: handle_def steady_bus_def)
  have sa: "search ?a search_order 0
      = Some (TSL2591_GAIN_LOW, TSL2591_INTEGRATIONTIME_300MS, 4)"
    by (simp add: search_order_def skipped_def handle_def scripted_bus_def LittleEndian_Uint16_def
          lux_simps int_time_of_def adj_gain_of_def tsl_consts)
  have sb: "search ?b search_order 0 = None"
    by (simp add: search_order_def skipped_def handle_def steady_bus_def LittleEndian_Uint16_def)
  show ?thesis
    using SetOptimalGain_search [OF ea wa] SetOptimalGain_search [OF eb wb] sa sb ra rb
    by simp
qed

text \<open>
  C4 does not hold without that condition. When the bus does not answer, every
  combination is skipped on its read error, the two restoring writes fail as well, and
  the handle keeps the medium gain and 300 ms it had.
\<close>

theorem SetOptimalGain_no_restore_counterexample:
  "fst (SetOptimalGain (handle True TSL2591_INTEGRATIONTIME_300MS TSL2591_GAIN_MED
          (steady_bus False None))) = Some AllGainOptionsSaturated
   \<and> Gain (snd (SetOptimalGain (handle True TSL2591_INTEGRATIONTIME_300MS TSL2591_GAIN_MED
          (steady_bus False None)))) = TSL2591_GAIN_MED
   \<and> Timing (snd (SetOptimalGain (handle True TSL2591_INTEGRATIONTIME_300MS TSL2591_GAIN_MED
          (steady_bus False None)))) = TSL2591_INTEGRATIONTIME_300MS
   \<and> TSL2591_GAIN_MED \<noteq> TSL2591_GAIN_LOW
   \<and> TSL2591_INTEGRATIONTIME_300MS \<noteq> TSL2591_INTEGRATIONTIME_600MS"
  by (simp add: SetOptimalGain_def gainOptions_def integrationOptions_def SetGain_def SetTiming_def
        WriteReg_def GetFullLuminosity_def ReadReg4_def handle_def steady_bus_def Let_def tsl_consts)

section \<open>Properties of the sampling job and the recorder\<close>

lemma digits10_small: "n < 10 \<Longrightarrow> digits10 n = [digit_char n]"
  by (subst digits10.simps) simp

lemma digits10_big: "10 \<le> n \<Longrightarrow> digits10 n = digits10 (n div 10) @ [digit_char (n mod 10)]"
  by (subst digits10.simps) simp

lemma fixed_digits_5:
  "fixed_digits 5 n =
     [digit_char (n div 10 div 10 div 10 div 10 mod 10), digit_char (n div 10 div 10 div 10 mod 10),
      digit_char (n div 10 div 10 mod 10), digit_char (n div 10 mod 10), digit_char (n mod 10)]"
proof -
  have e: "(5::nat) = Suc (Suc (Suc (Suc (Suc 0))))" by simp
  show ?thesis unfolding e by simp
qed

lemma normalise10_done: "1 \<le> m \<Longrightarrow> m < 10 \<Longrightarrow> normalise10 m e = (m, e)"
  by (subst normalise10.simps) simp

lemma normalise10_up: "0 < m \<Longrightarrow> m < 1 \<Longrightarrow> normalise10 m e = normalise10 (m * 10) (e - 1)"
  by (subst normalise10.simps) simp

lemma normalise10_down: "10 \<le> m \<Longrightarrow> normalise10 m e = normalise10 (m / 10) (e + 1)"
  by (subst normalise10.simps) simp

lemmas fmt_eval =
  fmt_f_def fmt_e_def render_e_def carry_def round_half_even_def Let_def digits10_small digits10_big fixed_digits_5
  digit_char_def normalise10_done normalise10_up normalise10_down

lemmas run_defs =
  boot_def fresh_db_def Start_def job_begin_def job_tick_def Stop_def MonitorAndRecordResults_def
  record_result_def IsInf_def Enable_def Disable_def WriteReg_def GetFullLuminosity_def
  ReadReg4_def LittleEndian_Uint16_def handle_def steady_bus_def

text \<open>The two readings the examples use: darkness, and 10000 and 2000 counts at 300 ms
  and low gain.\<close>

lemma CalculateLux_dark_reading: "CalculateLux tsl 0 0 = Inr NaN"
  using CalculateLux_dark [of 0 tsl] by simp

lemma GetNormalizedOutput_dark_reading:
  "GetNormalizedOutput TSL2591_VISIBLE 0 0 = Finite 0"
  "GetNormalizedOutput TSL2591_INFRARED 0 0 = Finite 0"
  "GetNormalizedOutput TSL2591_FULLSPECTRUM 0 0 = Finite 0"
  by (simp_all add: GetNormalizedOutput_def tsl_consts float64_of_uint16_def f_sub_def round64_zero)

lemma CalculateLux_sample_reading:
  assumes "Timing tsl = TSL2591_INTEGRATIONTIME_300MS" and "Gain tsl = TSL2591_GAIN_LOW"
  shows "CalculateLux tsl 10000 2000 = Inr (Finite 8704)"
  using assms by (simp add: int_time_of_def adj_gain_of_def tsl_consts lux_simps)

lemmas reading_eval =
  CalculateLux_dark_reading GetNormalizedOutput_dark_reading CalculateLux_sample_reading

text \<open>
  C3. The recorder drops a value only when its lux is \<open>+Inf\<close>. With both channels
  reading zero the job computes \<open>0 * (1 - 0 / 0)\<close>, which is NaN; the value goes through
  the channel and the recorder inserts a row whose lux column is \<open>NaN\<close>. A value with
  lux \<open>-Inf\<close> is inserted as well, and one with \<open>+Inf\<close> is dropped.
\<close>

theorem recorder_persists_NaN:
  "LuxResultsChan (meter (run [snd \<circ> Start, job_begin 0, job_tick 0]
        (attached True (Some (0, 0, 0, 0)))))
     = [\<lparr>Lux = NaN, Infrared = Finite 0, Visible = Finite 0, FullSpectrum = Finite 0,
         JobID = ''job-0''\<rparr>]
   \<and> sunlight (ResultsDB (meter
        (run [snd \<circ> Start, job_begin 0, job_tick 0, MonitorAndRecordResults]
           (attached True (Some (0, 0, 0, 0))))))
     = [\<lparr>col_job_id = ''job-0'', col_lux = ''NaN'', col_full_spectrum = ''0.00000e+00'',
         col_visible = ''0.00000e+00'', col_infrared = ''0.00000e+00''\<rparr>]
   \<and> sunlight (record_result
        \<lparr>Lux = NegInf, Infrared = Finite 0, Visible = Finite 0, FullSpectrum = Finite 0,
         JobID = ''job-0''\<rparr>
        fresh_db)
     = [\<lparr>col_job_id = ''job-0'', col_lux = ''-Inf'', col_full_spectrum = ''0.00000e+00'',
         col_visible = ''0.00000e+00'', col_infrared = ''0.00000e+00''\<rparr>]
   \<and> sunlight (record_result
        \<lparr>Lux = PosInf, Infrared = Finite 0, Visible = Finite 0, FullSpectrum = Finite 0,
         JobID = ''job-0''\<rparr>
        fresh_db)
     = []"
  by (simp add: run_def attached_def run_defs fmt_eval reading_eval)

text \<open>
  C5. With no sensor attached \<open>Start\<close> answers that the sensor is not connected and
  starts nothing. With a sensor attached, \<open>Start\<close> looks at the enabled flag, which
  only the goroutine sets, and only when its write succeeds. Two calls in a row are both
  accepted and both goroutines enter the loop, each with its own job id and each
  sending values. When the enabling write fails, the first job keeps looping with the
  flag clear, and a later \<open>Start\<close> is accepted too.
\<close>

theorem Start_twice_both_accepted:
  "Start (boot None) = (Served 400 ''The sensor is not connected'', boot None)
   \<and> fst (Start (attached True (Some (0x10, 0x27, 0xD0, 0x07))))
     = Served 200 ''Sunlight Reading Started''
   \<and> fst (Start (run [snd \<circ> Start] (attached True (Some (0x10, 0x27, 0xD0, 0x07)))))
     = Served 200 ''Sunlight Reading Started''
   \<and> jobs (run [snd \<circ> Start, snd \<circ> Start, job_begin 0, job_begin 1]
        (attached True (Some (0x10, 0x27, 0xD0, 0x07))))
     = [Looping 0 ''job-0'', Looping 1 ''job-1'']
   \<and> map JobID (LuxResultsChan (meter
        (run [snd \<circ> Start, snd \<circ> Start, job_begin 0, job_begin 1, job_tick 0, job_tick 1]
           (attached True (Some (0x10, 0x27, 0xD0, 0x07))))))
     = [''job-0'', ''job-1'']
   \<and> jobs (run [snd \<circ> Start, job_begin 0, job_tick 0] (attached False None))
     = [Looping 0 ''job-0'']
   \<and> fst (Start (run [snd \<circ> Start, job_begin 0, job_tick 0] (attached False None)))
     = Served 200 ''Sunlight Reading Started''
   \<and> jobs (run [snd \<circ> Start, job_begin 0, job_tick 0, snd \<circ> Start] (attached False None))
     = [Looping 0 ''job-0'', Spawned]"
  by (simp add: run_def attached_def run_defs fmt_eval reading_eval)

text \<open>
  C8, for the states in which the enabled flag tells whether a job is running.
  \<open>Stop\<close> with no job running changes nothing and answers that the sensor is already
  stopped, or, with no sensor attached, that it is not connected. With one job running,
  the flag set and that job's cancel function stored, \<open>Stop\<close> cancels the job's
  context, calls \<open>Disable\<close> and answers that the reading stopped; the job is still
  running when \<open>Stop\<close> returns, and leaves its loop at its next cancellation check.
\<close>

theorem Stop_by_job_status:
  "(running_jobs s = [] \<and> TSL2591 (meter s) = None
      \<longrightarrow> Stop s = (Served 400 ''The sensor is not connected'', s))
   \<and> (running_jobs s = [] \<and> TSL2591 (meter s) = Some tsl \<and> \<not> Enabled tsl
      \<longrightarrow> Stop s = (Served 400 ''The sensor is already stopped'', s))
   \<and> (running_jobs s = [Looping ctx jobID] \<and> TSL2591 (meter s) = Some tsl \<and> Enabled tsl
        \<and> cancel (meter s) = Some ctx
      \<longrightarrow> fst (Stop s) = Served 200 ''Sunlight Reading Stopped''
        \<and> ctx_done (snd (Stop s)) = insert ctx (ctx_done s)
        \<and> TSL2591 (meter (snd (Stop s))) = Some (snd (Disable tsl))
        \<and> running_jobs (snd (Stop s)) = [Looping ctx jobID]
        \<and> (\<forall>i < length (jobs s). jobs s ! i = Looping ctx jobID
              \<longrightarrow> jobs (job_tick i (snd (Stop s))) ! i = Exited))"
  by (simp add: Stop_def Let_def running_jobs_def job_tick_def)

theorem Stop_by_job_status_witness:
  "running_jobs (boot None) = []
   \<and> Stop (boot None) = (Served 400 ''The sensor is not connected'', boot None)
   \<and> running_jobs (attached True None) = []
   \<and> Stop (attached True None) = (Served 400 ''The sensor is already stopped'', attached True None)
   \<and> running_jobs (run [snd \<circ> Start, job_begin 0, job_tick 0]
              (attached True (Some (0x10, 0x27, 0xD0, 0x07))))
     = [Looping 0 ''job-0'']
   \<and> fst (Stop (run [snd \<circ> Start, job_begin 0, job_tick 0]
              (attached True (Some (0x10, 0x27, 0xD0, 0x07)))))
     = Served 200 ''Sunlight Reading Stopped''
   \<and> ctx_done (snd (Stop (run [snd \<circ> Start, job_begin 0, job_tick 0]
              (attached True (Some (0x10, 0x27, 0xD0, 0x07))))))
     = {0}
   \<and> running_jobs (snd (Stop (run [snd \<circ> Start, job_begin 0, job_tick 0]
              (attached True (Some (0x10, 0x27, 0xD0, 0x07))))))
     = [Looping 0 ''job-0'']
   \<and> jobs (job_tick 0 (snd (Stop (run [snd \<circ> Start, job_begin 0, job_tick 0]
              (attached True (Some (0x10, 0x27, 0xD0, 0x07)))))))
     = [Exited]"
proof -
  let ?s = "run [snd \<circ> Start, job_begin 0, job_tick 0] (attached True (Some (0x10, 0x27, 0xD0, 0x07)))"
  let ?off = "handle False TSL2591_INTEGRATIONTIME_300MS TSL2591_GAIN_LOW (steady_bus True None)"
  obtain tsl where tsl: "TSL2591 (meter ?s) = Some tsl" and en: "Enabled tsl"
    by (simp add: run_def attached_def run_defs fmt_eval reading_eval)
  have c: "cancel (meter ?s) = Some 0"
    by (simp add: run_def attached_def run_defs fmt_eval reading_eval)
  have d: "ctx_done ?s = {}" and j: "jobs ?s = [Looping 0 ''job-0'']"
    by (simp_all add: run_def attached_def run_defs fmt_eval reading_eval)
  have r: "running_jobs ?s = [Looping 0 ''job-0'']"
    using j by (simp add: running_jobs_def running_def)
  have r0: "running_jobs (boot None) = []" and r1: "running_jobs (attached True None) = []"
    by (simp_all add: running_jobs_def attached_def boot_def)
  have 1: "Stop (boot None) = (Served 400 ''The sensor is not connected'', boot None)"
    using Stop_by_job_status [of "boot None"] r0 by (simp add: boot_def)
  have 2: "Stop (attached True None) = (Served 400 ''The sensor is already stopped'', attached True None)"
    using Stop_by_job_status [of "attached True None" ?off] r1
    by (simp add: attached_def boot_def handle_def)
  have 3: "fst (Stop ?s) = Served 200 ''Sunlight Reading Stopped''
      \<and> ctx_done (snd (Stop ?s)) = {0}
      \<and> running_jobs (snd (Stop ?s)) = [Looping 0 ''job-0'']
      \<and> jobs (job_tick 0 (snd (Stop ?s))) ! 0 = Exited"
    using Stop_by_job_status [of ?s tsl 0 "''job-0''"] tsl en c d j r by simp
  have len: "length (jobs (job_tick 0 (snd (Stop ?s)))) = 1"
    using j tsl by (simp add: Stop_def Let_def job_tick_def en c)
  have "jobs (job_tick 0 (snd (Stop ?s))) = [Exited]"
    using 3 len by (cases "jobs (job_tick 0 (snd (Stop ?s)))") simp_all
  then show ?thesis using r0 r1 r 1 2 3 by simp
qed

text \<open>
  C8 does not hold for a missing sensor: no job is running, and the answer is that the
  sensor is not connected, not that it is already stopped.
\<close>

theorem Stop_no_sensor_counterexample:
  "running_jobs (boot None) = []
   \<and> fst (Stop (boot None)) = Served 400 ''The sensor is not connected''
   \<and> fst (Stop (boot None)) \<noteq> Served 400 ''The sensor is already stopped''"
  by (simp add: boot_def Stop_def running_jobs_def)

subsection \<open>The stored row\<close>

lemma is_digit_digit_char: "is_digit (digit_char d)"
proof -
  have "d mod 10 < length ''0123456789''" by simp
  then have "''0123456789'' ! (d mod 10) \<in> set ''0123456789''" by (rule nth_mem)
  then show ?thesis by (simp only: is_digit_def digit_char_def)
qed

lemma is_digit_digits10: "c \<in> set (digits10 n) \<Longrightarrow> is_digit c"
proof (induction n rule: digits10.induct)
  case (1 n)
  show ?case
  proof (cases "n < 10")
    case True
    then have "digits10 n = [digit_char n]" by (rule digits10_small)
    with "1.prems" show ?thesis by (simp add: is_digit_digit_char)
  next
    case False
    then have "digits10 n = digits10 (n div 10) @ [digit_char (n mod 10)]"
      by (simp add: digits10_big)
    with "1.prems" "1.IH" False show ?thesis by (auto simp add: is_digit_digit_char)
  qed
qed

lemma length_fixed_digits: "length (fixed_digits k n) = k"
  by (induction k arbitrary: n) simp_all

lemma is_digit_fixed_digits: "c \<in> set (fixed_digits k n) \<Longrightarrow> is_digit c"
  by (induction k arbitrary: n) (auto simp add: is_digit_digit_char)

lemma is_digit_not_point: "is_digit c \<Longrightarrow> c \<noteq> CHR ''.''"
  by (auto simp add: is_digit_def)

lemma is_digit_not_e: "is_digit c \<Longrightarrow> c \<noteq> CHR ''e''"
  by (auto simp add: is_digit_def)

lemma filter_is_digit_fixed: "filter is_digit (fixed_digits k n) = fixed_digits k n"
  by (simp add: filter_id_conv is_digit_fixed_digits)

lemma fraction_part_fmt_f:
  "fraction_part (fmt_f 5 (Finite x)) = fixed_digits 5 (round_half_even (\<bar>x\<bar> * 10 ^ 5) mod 10 ^ 5)"
proof -
  let ?n = "round_half_even (\<bar>x\<bar> * 10 ^ 5)"
  let ?pre = "(if x < 0 then ''-'' else []) @ digits10 (?n div 10 ^ 5)"
  have shape: "fmt_f 5 (Finite x) = ?pre @ ''.'' @ fixed_digits 5 (?n mod 10 ^ 5)"
    by (simp add: fmt_f_def Let_def)
  have pre: "\<And>c. c \<in> set ?pre \<Longrightarrow> c \<noteq> CHR ''.''"
    using is_digit_digits10 is_digit_not_point by (auto split: if_splits)
  have "dropWhile (\<lambda>c. c \<noteq> CHR ''.'') (?pre @ ''.'' @ fixed_digits 5 (?n mod 10 ^ 5))
        = dropWhile (\<lambda>c. c \<noteq> CHR ''.'') (''.'' @ fixed_digits 5 (?n mod 10 ^ 5))"
    using pre by (rule dropWhile_append2)
  then show ?thesis
    unfolding fraction_part_def shape by simp
qed

lemma significant_digits_render_e: "significant_digits (render_e neg 5 p) = 6"
proof -
  obtain n e where p: "p = (n, e)" by (cases p)
  let ?mant = "(if neg then ''-'' else []) @ [digit_char (n div 10 ^ 5)] @ ''.''
                 @ fixed_digits 5 (n mod 10 ^ 5)"
  let ?rest = "(if e < 0 then ''-'' else ''+'') @ (if \<bar>e\<bar> < 10 then ''0'' else []) @ digits10 (nat \<bar>e\<bar>)"
  have shape: "render_e neg 5 p = ?mant @ ''e'' @ ?rest"
    by (simp add: render_e_def p)
  have "digit_char (n div 10 ^ 5) \<noteq> CHR ''e''"
    using is_digit_digit_char by (rule is_digit_not_e)
  moreover have "\<And>c. c \<in> set (fixed_digits 5 (n mod 10 ^ 5)) \<Longrightarrow> c \<noteq> CHR ''e''"
    using is_digit_fixed_digits by (rule is_digit_not_e)
  ultimately have no_e: "\<And>c. c \<in> set ?mant \<Longrightarrow> c \<noteq> CHR ''e''"
    by (auto split: if_splits)
  have "takeWhile (\<lambda>c. c \<noteq> CHR ''e'') (?mant @ ''e'' @ ?rest)
        = ?mant @ takeWhile (\<lambda>c. c \<noteq> CHR ''e'') (''e'' @ ?rest)"
    using no_e by (rule takeWhile_append2)
  then have tw: "takeWhile (\<lambda>c. c \<noteq> CHR ''e'') (render_e neg 5 p) = ?mant"
    unfolding shape by simp
  have marks: "\<not> is_digit CHR ''-''" "\<not> is_digit CHR ''.''"
    by (simp_all add: is_digit_def)
  have "filter is_digit ?mant = digit_char (n div 10 ^ 5) # fixed_digits 5 (n mod 10 ^ 5)"
    by (simp add: filter_is_digit_fixed is_digit_digit_char marks)
  then show ?thesis
    unfolding significant_digits_def tw by (simp add: length_fixed_digits)
qed

lemma significant_digits_fmt_e: "significant_digits (fmt_e 5 (Finite y)) = 6"
  by (simp add: fmt_e_def Let_def significant_digits_render_e split: prod.splits)

lemma fraction_part_fmt_f_shape:
  "length (fraction_part (fmt_f 5 (Finite x))) = 5
   \<and> list_all is_digit (fraction_part (fmt_f 5 (Finite x)))"
  by (simp add: fraction_part_fmt_f length_fixed_digits list_all_iff is_digit_fixed_digits)

text \<open>
  C9, with six significant digits. A value the recorder accepts, when the insert
  succeeds, adds exactly one row: the job id, the lux under \<open>%.5f\<close>, and the full-spectrum, visible and
  infrared values under \<open>%.5e\<close>. A finite number under \<open>%.5f\<close> has exactly five
  digits after the point; a finite number under \<open>%.5e\<close> has six digits in its mantissa,
  one before the point and five after it.
\<close>

theorem accepted_sample_row:
  assumes "\<not> IsInf (Lux result) 1" and "exec_ok db (execs db)"
  shows "sunlight (record_result result db)
           = sunlight db
             @ [\<lparr>col_job_id = JobID result,
                 col_lux = fmt_f 5 (Lux result),
                 col_full_spectrum = fmt_e 5 (FullSpectrum result),
                 col_visible = fmt_e 5 (Visible result),
                 col_infrared = fmt_e 5 (Infrared result)\<rparr>]
         \<and> length (fraction_part (fmt_f 5 (Finite x))) = 5
         \<and> list_all is_digit (fraction_part (fmt_f 5 (Finite x)))
         \<and> significant_digits (fmt_e 5 (Finite y)) = 6"
  using assms
  by (simp add: record_result_def Let_def fraction_part_fmt_f_shape significant_digits_fmt_e)

theorem accepted_sample_row_witness:
  "sunlight (record_result
      \<lparr>Lux = Finite 8704, Infrared = Finite (2000 / 65535), Visible = Finite (8000 / 65535),
       FullSpectrum = Finite (10000 / 65535), JobID = ''job-0''\<rparr>
      fresh_db)
     = [\<lparr>col_job_id = ''job-0'', col_lux = ''8704.00000'', col_full_spectrum = ''1.52590e-01'',
         col_visible = ''1.22072e-01'', col_infrared = ''3.05180e-02''\<rparr>]
   \<and> fraction_part ''8704.00000'' = ''00000''
   \<and> significant_digits ''1.52590e-01'' = 6"
proof -
  let ?r = "\<lparr>Lux = Finite 8704, Infrared = Finite (2000 / 65535), Visible = Finite (8000 / 65535),
       FullSpectrum = Finite (10000 / 65535), JobID = ''job-0''\<rparr>"
  let ?db = "fresh_db"
  have a: "\<not> IsInf (Lux ?r) 1" by (simp add: IsInf_def)
  have b: "exec_ok ?db (execs ?db)" by (simp add: fresh_db_def)
  have c: "sunlight ?db = []" by (simp add: fresh_db_def)
  have f: "fmt_f 5 (Finite 8704) = ''8704.00000''"
    by (simp add: fmt_eval)
  have e1: "fmt_e 5 (Finite (10000 / 65535)) = ''1.52590e-01''"
    by (simp add: fmt_eval)
  have e2: "fmt_e 5 (Finite (8000 / 65535)) = ''1.22072e-01''"
    by (simp add: fmt_eval)
  have e3: "fmt_e 5 (Finite (2000 / 65535)) = ''3.05180e-02''"
    by (simp add: fmt_eval)
  have fp: "fraction_part ''8704.00000'' = ''00000''"
    by (simp add: fraction_part_def)
  show ?thesis
    using accepted_sample_row [OF a b, of 8704 "10000 / 65535"] c f e1 e2 e3 fp by simp
qed

text \<open>
  C9 does not hold with five significant digits: the full-spectrum value of 10000
  counts is stored as \<open>1.52590e-01\<close>, six significant digits.
\<close>

theorem scientific_six_digits_counterexample:
  "col_full_spectrum (last (sunlight (record_result
      \<lparr>Lux = Finite 8704, Infrared = Finite (2000 / 65535), Visible = Finite (8000 / 65535),
       FullSpectrum = Finite (10000 / 65535), JobID = ''job-0''\<rparr>
      fresh_db)))
     = ''1.52590e-01''
   \<and> significant_digits ''1.52590e-01'' = 6
   \<and> significant_digits ''1.52590e-01'' \<noteq> 5"
  by (simp add: record_result_def fresh_db_def IsInf_def fmt_eval significant_digits_def is_digit_def)

end
